theory Spec2Isabelle
  imports Main "HOL-Library.Char_ord" "HOL-Library.List_Lexorder" "HOL-Library.Sublist"
begin

text \<open>
  The missed-homework report of \<open>e2w.py\<close>: \<open>generate_missed_homework_report\<close> reads a
  gradebook and returns one record for each student with a score of zero,
  \<open>build_mail_merge_dataframe\<close> and the CSV export turn the records into a mail-merge
  table, and \<open>build_word_report_bytes\<close> into a Word document. The functions are modelled
  first, each as the source writes it, with its loops as recursive functions over the
  lists they append to and every exception as a value of type \<open>error\<close>. The theorems
  follow, claim by claim.
\<close>

section \<open>Python text\<close>

text \<open>
  A Python \<open>str\<close> is modelled as a \<^typ>\<open>string\<close> whose characters are the code points
  below 256; the order on characters (and so the lexicographic order on strings that
  \<open>sorted\<close> uses) is the order of the code points.

  \<open>str.strip()\<close> and \<open>str.split()\<close> without arguments work on the characters for which
  \<open>str.isspace\<close> holds: below 256 these are U+0009..U+000D, U+001C..U+001F, U+0020,
  U+0085 and U+00A0.
\<close>

definition py_isspace :: "char \<Rightarrow> bool" where
  "py_isspace c = (of_char c \<in> set [9, 10, 11, 12, 13, 28, 29, 30, 31, 32, 133, 160 :: nat])"

definition py_strip :: "string \<Rightarrow> string" where
  "py_strip s = rev (dropWhile py_isspace (rev (dropWhile py_isspace s)))"

text \<open>
  \<open>s.split()\<close>: the maximal runs of non-whitespace characters, left to right. The first
  argument of \<open>split_from\<close> is the token being read.
\<close>

fun split_from :: "string \<Rightarrow> string \<Rightarrow> string list" where
  "split_from cur [] = (if cur = [] then [] else [cur])"
| "split_from cur (c # cs) =
     (if py_isspace c
      then (if cur = [] then split_from [] cs else cur # split_from [] cs)
      else split_from (cur @ [c]) cs)"

definition py_split :: "string \<Rightarrow> string list" where
  "py_split s = split_from [] s"

fun py_join :: "string \<Rightarrow> string list \<Rightarrow> string" where
  "py_join sep [] = []"
| "py_join sep [x] = x"
| "py_join sep (x # y # ys) = x @ sep @ py_join sep (y # ys)"

text \<open>\<open>str(n)\<close> for an integer: its decimal digits, with a minus sign when negative.\<close>

function str_nat :: "nat \<Rightarrow> string" where
  "str_nat n =
     (if n < 10 then [''0123456789'' ! n]
      else str_nat (n div 10) @ [''0123456789'' ! (n mod 10)])"
  by pat_completeness auto
termination
  by (relation "measure id") auto

declare str_nat.simps [simp del]

definition py_str_int :: "int \<Rightarrow> string" where
  "py_str_int i = (if i < 0 then CHR ''-'' # str_nat (nat (- i)) else str_nat (nat i))"

text \<open>\<open>xs[i:]\<close>: a negative start counts from the end, and a start out of range is clipped.\<close>

definition py_slice_from :: "'a list \<Rightarrow> int \<Rightarrow> 'a list" where
  "py_slice_from xs i =
     (if i < 0 then drop (nat (int (length xs) + i)) xs else drop (nat i) xs)"

section \<open>Cells and data frames\<close>

text \<open>
  The scalar a cell of the data frame holds, as \<open>iterrows\<close> hands it to the loop body:
  \<open>NaN\<close> is the float that pandas stores for a blank cell, \<open>FloatV s m e\<close> is the finite
  float \<open>(-1)^s * m * 2^e\<close> (so \<open>FloatV True 0 0\<close> is \<open>-0.0\<close>), \<open>IntV\<close> an integer,
  \<open>StrV\<close> a text and \<open>BoolV\<close> a boolean. Dates and other objects are not modelled.
\<close>

datatype cell = NaN | IntV int | FloatV bool nat int | StrV string | BoolV bool

text \<open>
  \<open>repr\<close> of a finite float (the shortest decimal text that reads back as the same float)
  is the interpreter's; the program only passes the text on, so it is a parameter.
\<close>

type_synonym float_repr = "bool \<Rightarrow> nat \<Rightarrow> int \<Rightarrow> string"

fun py_str :: "float_repr \<Rightarrow> cell \<Rightarrow> string" where
  "py_str frepr NaN = ''nan''"
| "py_str frepr (IntV i) = py_str_int i"
| "py_str frepr (FloatV s m e) = frepr s m e"
| "py_str frepr (StrV t) = t"
| "py_str frepr (BoolV b) = (if b then ''True'' else ''False'')"

text \<open>\<open>pd.notna(val)\<close>\<close>

fun pd_notna :: "cell \<Rightarrow> bool" where
  "pd_notna NaN = False"
| "pd_notna _ = True"

text \<open>
  \<open>val == 0\<close>: both float zeros equal \<open>0\<close>, \<open>nan\<close> equals nothing, a \<open>str\<close> never
  equals a number (also not the text \<open>"0"\<close>), and \<open>False == 0\<close> since \<open>bool\<close> is a
  subtype of \<open>int\<close>.
\<close>

fun py_eq_zero :: "cell \<Rightarrow> bool" where
  "py_eq_zero NaN = False"
| "py_eq_zero (IntV i) = (i = 0)"
| "py_eq_zero (FloatV s m e) = (m = 0)"
| "py_eq_zero (StrV t) = False"
| "py_eq_zero (BoolV b) = (\<not> b)"

text \<open>
  A data frame: its column labels, left to right, and its rows, top to bottom, each row
  the list of its cells in column order. pandas keeps every row as long as the list of
  columns, and \<open>read_excel\<close> renames repeated headers, so the labels are distinct.
\<close>

record dataframe =
  columns :: "string list"
  rows :: "cell list list"

definition wf_df :: "dataframe \<Rightarrow> bool" where
  "wf_df df = (distinct (columns df) \<and> (\<forall>r \<in> set (rows df). length r = length (columns df)))"

text \<open>\<open>df.iterrows()\<close> yields each row as a Series: its values, labelled by the columns.\<close>

type_synonym series = "(string \<times> cell) list"

definition iterrows :: "dataframe \<Rightarrow> series list" where
  "iterrows df = map (zip (columns df)) (rows df)"

datatype error = ValueError string | KeyError string | IndexError

text \<open>\<open>row[col]\<close>\<close>

definition row_get :: "series \<Rightarrow> string \<Rightarrow> error + cell" where
  "row_get row col = (case map_of row col of None \<Rightarrow> Inl (KeyError col) | Some v \<Rightarrow> Inr v)"

section \<open>The extractor\<close>

record student_record =
  name :: string
  group_val :: cell
  email :: string
  missed :: "string list"

text \<open>
  The inner loop \<open>for col in score_columns\<close>, with the list \<open>missed\<close> it appends to.
  Column labels are texts, so \<open>str(col)\<close> is \<open>col\<close>.
\<close>

fun score_columns_loop :: "series \<Rightarrow> string list \<Rightarrow> string list \<Rightarrow> error + string list" where
  "score_columns_loop row [] missed_l = Inr missed_l"
| "score_columns_loop row (col # cols) missed_l =
     (case row_get row col of
        Inl e \<Rightarrow> Inl e
      | Inr val \<Rightarrow>
          score_columns_loop row cols
            (if pd_notna val \<and> py_eq_zero val then missed_l @ [col] else missed_l))"

text \<open>The body of the loop \<open>for _, row in df.iterrows()\<close>, with the list \<open>results\<close>.\<close>

definition row_body ::
  "float_repr \<Rightarrow> string \<Rightarrow> string \<Rightarrow> string \<Rightarrow> string \<Rightarrow> string list \<Rightarrow> series \<Rightarrow>
   student_record list \<Rightarrow> error + student_record list" where
  "row_body frepr first_name_col last_name_col group_col email_col score_columns row results =
     (case row_get row first_name_col of Inl e \<Rightarrow> Inl e | Inr first_v \<Rightarrow>
      case row_get row last_name_col of Inl e \<Rightarrow> Inl e | Inr last_v \<Rightarrow>
      case row_get row group_col of Inl e \<Rightarrow> Inl e | Inr group_v \<Rightarrow>
      case row_get row email_col of Inl e \<Rightarrow> Inl e | Inr email_v \<Rightarrow>
      case score_columns_loop row score_columns [] of Inl e \<Rightarrow> Inl e | Inr missed_l \<Rightarrow>
        Inr (if missed_l \<noteq> []
             then results @
               [\<lparr>name = py_strip (py_strip (py_str frepr first_v) @ '' '' @
                                  py_strip (py_str frepr last_v)),
                 group_val = group_v,
                 email = py_strip (py_str frepr email_v),
                 missed = missed_l\<rparr>]
             else results))"

fun iterrows_loop ::
  "float_repr \<Rightarrow> string \<Rightarrow> string \<Rightarrow> string \<Rightarrow> string \<Rightarrow> string list \<Rightarrow> series list \<Rightarrow>
   student_record list \<Rightarrow> error + student_record list" where
  "iterrows_loop frepr fc lc gc ec score_columns [] results = Inr results"
| "iterrows_loop frepr fc lc gc ec score_columns (row # rest) results =
     (case row_body frepr fc lc gc ec score_columns row results of
        Inl e \<Rightarrow> Inl e
      | Inr results' \<Rightarrow> iterrows_loop frepr fc lc gc ec score_columns rest results')"

text \<open>
  \<open>generate_missed_homework_report\<close>: the two validations, then the loop over the rows.
  A failed validation raises a \<open>ValueError\<close> with its message.
\<close>

definition generate_missed_homework_report ::
  "float_repr \<Rightarrow> dataframe \<Rightarrow> string \<Rightarrow> string \<Rightarrow> string \<Rightarrow> string \<Rightarrow> int \<Rightarrow>
   error + student_record list" where
  "generate_missed_homework_report frepr df first_name_col last_name_col group_col email_col
     scores_start_index =
     (let required = {first_name_col, last_name_col, group_col, email_col};
          missing = required - set (columns df)
      in if missing \<noteq> {}
         then Inl (ValueError
           (''Missing required column(s): '' @ py_join '', '' (sorted_list_of_set missing)))
         else
           let score_columns = py_slice_from (columns df) scores_start_index
           in if length score_columns = 0
              then Inl (ValueError
                (''No assignment columns detected. Expected assignment columns from column index ''
                  @ py_str_int scores_start_index @ '' onward.''))
              else iterrows_loop frepr first_name_col last_name_col group_col email_col
                     score_columns (iterrows df) [])"

section \<open>The mail-merge table\<close>

text \<open>
  One row of the mail-merge table. \<open>pd.DataFrame(rows)\<close> of a list of dictionaries with
  these three keys is the table with these three columns, in this order, and one row for
  each dictionary, so the table is modelled as the list of its rows.
\<close>

record mail_merge_row =
  FirstName :: string
  Email :: string
  MissedHomeworks :: string

text \<open>
  The loop \<open>for r in records\<close> of \<open>build_mail_merge_dataframe\<close>, with the list \<open>rows\<close>.
  \<open>r["name"].split()[0]\<close> raises \<open>IndexError\<close> when the name has no token.
\<close>

fun mail_merge_loop :: "student_record list \<Rightarrow> mail_merge_row list \<Rightarrow> error + mail_merge_row list" where
  "mail_merge_loop [] rows_l = Inr rows_l"
| "mail_merge_loop (r # rest) rows_l =
     (case py_split (name r) of
        [] \<Rightarrow> Inl IndexError
      | first_name # _ \<Rightarrow>
          mail_merge_loop rest
            (rows_l @ [\<lparr>FirstName = first_name, Email = email r,
                        MissedHomeworks = py_join [CHR 0x0A] (missed r)\<rparr>]))"

definition build_mail_merge_dataframe :: "student_record list \<Rightarrow> error + mail_merge_row list" where
  "build_mail_merge_dataframe records = mail_merge_loop records []"

section \<open>The Word report\<close>

text \<open>
  The document that \<open>build_word_report_bytes\<close> builds and saves: the list of its
  paragraphs, each with its style. \<open>Document()\<close> is the empty document;
  \<open>add_heading(text, level)\<close> appends a paragraph in the style \<open>Title\<close> for level 0 and
  \<open>Heading level\<close> otherwise; \<open>add_paragraph(text, style)\<close> appends a paragraph in the given
  style, the default one when none is given. Writing the document out as the bytes of a
  \<open>.docx\<close> file is not modelled.
\<close>

datatype par_style = Title | Heading nat | Default | ListBullet

type_synonym document = "(par_style \<times> string) list"

definition add_heading :: "document \<Rightarrow> string \<Rightarrow> nat \<Rightarrow> document" where
  "add_heading doc t level = doc @ [(if level = 0 then Title else Heading level, t)]"

definition add_paragraph :: "document \<Rightarrow> string \<Rightarrow> par_style \<Rightarrow> document" where
  "add_paragraph doc t style = doc @ [(style, t)]"

text \<open>The loop \<open>for a in r["missed"]\<close>.\<close>

fun missed_loop :: "document \<Rightarrow> string list \<Rightarrow> document" where
  "missed_loop doc [] = doc"
| "missed_loop doc (a # rest) = missed_loop (add_paragraph doc ('' '' @ a) ListBullet) rest"

text \<open>
  The loop \<open>for r in records\<close>. In the f-string, \<open>{r['group']}\<close> formats the group value
  with an empty format specification, which is \<open>str\<close> of it.
\<close>

fun records_loop :: "float_repr \<Rightarrow> document \<Rightarrow> student_record list \<Rightarrow> document" where
  "records_loop frepr doc [] = doc"
| "records_loop frepr doc (r # rest) =
     records_loop frepr
       (missed_loop
          (add_heading doc (name r @ '', '' @ py_str frepr (group_val r) @ '', '' @ email r) 1)
          (missed r))
       rest"

definition build_word_report_bytes :: "float_repr \<Rightarrow> student_record list \<Rightarrow> string \<Rightarrow> document" where
  "build_word_report_bytes frepr records title =
     (let doc = add_heading [] title 0
      in if records = []
         then add_paragraph doc ''No students with missed homework were found.'' Default
         else records_loop frepr doc records)"

section \<open>The CSV export\<close>

text \<open>
  \<open>mail_df.to_csv(index=False, quoting=csv.QUOTE_ALL)\<close>: the header and then the rows, one
  line each; every field is written between double quotes, a double quote inside a field
  is doubled, the fields are separated by commas and a line ends with the line
  terminator, which is \<open>os.linesep\<close>.
\<close>

definition csv_field :: "string \<Rightarrow> string" where
  "csv_field f =
     CHR 0x22 # concat (map (\<lambda>c. if c = CHR 0x22 then [c, c] else [c]) f) @ [CHR 0x22]"

definition csv_line :: "string \<Rightarrow> string list \<Rightarrow> string" where
  "csv_line lineterminator fs = py_join '','' (map csv_field fs) @ lineterminator"

definition to_csv :: "string \<Rightarrow> mail_merge_row list \<Rightarrow> string" where
  "to_csv lineterminator mail_df =
     csv_line lineterminator [''FirstName'', ''Email'', ''MissedHomeworks''] @
     concat (map (\<lambda>r. csv_line lineterminator [FirstName r, Email r, MissedHomeworks r]) mail_df)"

text \<open>
  \<open>.encode("utf-8-sig")\<close>: the byte order mark EF BB BF, then every character in UTF-8,
  which for a code point below 128 is one byte and for one from 128 to 255 two bytes.
\<close>

definition utf_8 :: "char \<Rightarrow> nat list" where
  "utf_8 c = (if of_char c < (128 :: nat) then [of_char c]
              else [192 + of_char c div 64, 128 + of_char c mod 64])"

definition encode_utf_8_sig :: "string \<Rightarrow> nat list" where
  "encode_utf_8_sig s = [239, 187, 191] @ concat (map utf_8 s)"

text \<open>
  The export in \<open>main\<close>: reached with at least one record (for none, \<open>main\<close> returns
  before), it builds the table and encodes its CSV text.
\<close>

definition mail_merge_csv_bytes :: "string \<Rightarrow> student_record list \<Rightarrow> (error + nat list) option" where
  "mail_merge_csv_bytes lineterminator records =
     (if records = [] then None
      else Some (case build_mail_merge_dataframe records of
                   Inl e \<Rightarrow> Inl e
                 | Inr mail_df \<Rightarrow> Inr (encode_utf_8_sig (to_csv lineterminator mail_df))))"

section \<open>A reader of quoted CSV\<close>

text \<open>
  The parser the round trip is stated against: fields separated by commas, records ended
  by a line feed or by a carriage return with an optional line feed; a field that starts
  with a double quote runs to the closing double quote, with commas and line breaks kept
  as they are and a doubled double quote read as one.
\<close>

datatype csv_state = RecordStart | FieldStart | Unquoted | Quoted | QuoteSeen

definition skip_lf :: "string \<Rightarrow> string" where
  "skip_lf cs = (case cs of [] \<Rightarrow> [] | c # rest \<Rightarrow> if c = CHR 0x0A then rest else cs)"

definition end_record :: "csv_state \<Rightarrow> string \<Rightarrow> string list \<Rightarrow> string list" where
  "end_record st cur rec = (if st = RecordStart then [] else rec @ [cur])"

function csv_parse_from ::
  "csv_state \<Rightarrow> string \<Rightarrow> string list \<Rightarrow> string list list \<Rightarrow> string \<Rightarrow> string list list option" where
  "csv_parse_from st cur rec out [] =
     (if st = RecordStart then Some out
      else if st = Quoted then None
      else Some (out @ [rec @ [cur]]))"
| "csv_parse_from st cur rec out (c # cs) =
     (if st = Quoted then
        (if c = CHR 0x22 then csv_parse_from QuoteSeen cur rec out cs
         else csv_parse_from Quoted (cur @ [c]) rec out cs)
      else if st = QuoteSeen \<and> c = CHR 0x22 then csv_parse_from Quoted (cur @ [c]) rec out cs
      else if c = CHR '','' then csv_parse_from FieldStart [] (rec @ [cur]) out cs
      else if c = CHR 0x0A then
        csv_parse_from RecordStart [] [] (out @ [end_record st cur rec]) cs
      else if c = CHR 0x0D then
        csv_parse_from RecordStart [] [] (out @ [end_record st cur rec]) (skip_lf cs)
      else if st = QuoteSeen then None
      else if c = CHR 0x22 \<and> st \<noteq> Unquoted then csv_parse_from Quoted [] rec out cs
      else csv_parse_from Unquoted (cur @ [c]) rec out cs)"
  by pat_completeness auto
termination
  by (relation "measure (\<lambda>(st, cur, rec, out, s). length s)")
    (auto simp: skip_lf_def split: list.splits)

declare csv_parse_from.simps [simp del]

definition csv_parse :: "string \<Rightarrow> string list list option" where
  "csv_parse s = csv_parse_from RecordStart [] [] [] s"

text \<open>Reading UTF-8 with an optional byte order mark, for code points below 256.\<close>

fun utf_8_decode :: "nat list \<Rightarrow> string option" where
  "utf_8_decode [] = Some []"
| "utf_8_decode [b] = (if b < 128 then Some [char_of b] else None)"
| "utf_8_decode (b # b2 # bs) =
     (if b < 128 then map_option ((#) (char_of b)) (utf_8_decode (b2 # bs))
      else if (b = 194 \<or> b = 195) \<and> 128 \<le> b2 \<and> b2 < 192
      then map_option ((#) (char_of ((b - 192) * 64 + (b2 - 128)))) (utf_8_decode bs)
      else None)"

definition decode_utf_8_sig :: "nat list \<Rightarrow> string option" where
  "decode_utf_8_sig bs =
     (if take 3 bs = [239, 187, 191] then utf_8_decode (drop 3 bs) else utf_8_decode bs)"

section \<open>The extractor on the object store\<close>

text \<open>
  The same function with the objects it creates and changes made explicit. The store is
  the list of all objects, an object's address its position; a new object goes to the
  end. The lists \<open>results\<close> and \<open>missed\<close> are objects, changed in place by \<open>append\<close>; a
  record holds the address of its \<open>missed\<close> list. The frame is only read (\<open>iterrows\<close>
  hands out copies of its rows), so it is passed as its value; it is one of the objects
  of the store the function is called in.
\<close>

record stored_record =
  s_name :: string
  s_group :: cell
  s_email :: string
  s_missed :: nat

datatype obj = Frame dataframe | StrList "string list" | Records "stored_record list"

type_synonym store = "obj list"

definition lookup :: "store \<Rightarrow> nat \<Rightarrow> obj option" where
  "lookup h a = (if a < length h then Some (h ! a) else None)"

definition new_object :: "obj \<Rightarrow> store \<Rightarrow> nat \<times> store" where
  "new_object ob h = (length h, h @ [ob])"

text \<open>\<open>xs.append(x)\<close> for the list at an address; the address always holds such a list.\<close>

definition append_str :: "nat \<Rightarrow> string \<Rightarrow> store \<Rightarrow> store" where
  "append_str a x h =
     (case lookup h a of Some (StrList xs) \<Rightarrow> h[a := StrList (xs @ [x])] | _ \<Rightarrow> h)"

definition append_record :: "nat \<Rightarrow> stored_record \<Rightarrow> store \<Rightarrow> store" where
  "append_record a r h =
     (case lookup h a of Some (Records rs) \<Rightarrow> h[a := Records (rs @ [r])] | _ \<Rightarrow> h)"

definition str_list_at :: "store \<Rightarrow> nat \<Rightarrow> string list" where
  "str_list_at h a = (case lookup h a of Some (StrList xs) \<Rightarrow> xs | _ \<Rightarrow> [])"

fun score_columns_loop_st ::
  "series \<Rightarrow> string list \<Rightarrow> nat \<Rightarrow> store \<Rightarrow> (error + unit) \<times> store" where
  "score_columns_loop_st row [] missed_a h = (Inr (), h)"
| "score_columns_loop_st row (col # cols) missed_a h =
     (case row_get row col of
        Inl e \<Rightarrow> (Inl e, h)
      | Inr val \<Rightarrow>
          score_columns_loop_st row cols missed_a
            (if pd_notna val \<and> py_eq_zero val then append_str missed_a col h else h))"

definition row_body_st ::
  "float_repr \<Rightarrow> string \<Rightarrow> string \<Rightarrow> string \<Rightarrow> string \<Rightarrow> string list \<Rightarrow> series \<Rightarrow>
   nat \<Rightarrow> store \<Rightarrow> (error + unit) \<times> store" where
  "row_body_st frepr first_name_col last_name_col group_col email_col score_columns row
     results_a h =
     (case row_get row first_name_col of Inl e \<Rightarrow> (Inl e, h) | Inr first_v \<Rightarrow>
      case row_get row last_name_col of Inl e \<Rightarrow> (Inl e, h) | Inr last_v \<Rightarrow>
      case row_get row group_col of Inl e \<Rightarrow> (Inl e, h) | Inr group_v \<Rightarrow>
      case row_get row email_col of Inl e \<Rightarrow> (Inl e, h) | Inr email_v \<Rightarrow>
      case new_object (StrList []) h of (missed_a, h1) \<Rightarrow>
      case score_columns_loop_st row score_columns missed_a h1 of
        (Inl e, h2) \<Rightarrow> (Inl e, h2)
      | (Inr u, h2) \<Rightarrow>
          (Inr (),
           if str_list_at h2 missed_a \<noteq> []
           then append_record results_a
                  \<lparr>s_name = py_strip (py_strip (py_str frepr first_v) @ '' '' @
                                        py_strip (py_str frepr last_v)),
                    s_group = group_v,
                    s_email = py_strip (py_str frepr email_v),
                    s_missed = missed_a\<rparr> h2
           else h2))"

fun iterrows_loop_st ::
  "float_repr \<Rightarrow> string \<Rightarrow> string \<Rightarrow> string \<Rightarrow> string \<Rightarrow> string list \<Rightarrow> series list \<Rightarrow>
   nat \<Rightarrow> store \<Rightarrow> (error + unit) \<times> store" where
  "iterrows_loop_st frepr fc lc gc ec score_columns [] results_a h = (Inr (), h)"
| "iterrows_loop_st frepr fc lc gc ec score_columns (row # rest) results_a h =
     (case row_body_st frepr fc lc gc ec score_columns row results_a h of
        (Inl e, h') \<Rightarrow> (Inl e, h')
      | (Inr u, h') \<Rightarrow> iterrows_loop_st frepr fc lc gc ec score_columns rest results_a h')"

definition generate_missed_homework_report_st ::
  "float_repr \<Rightarrow> dataframe \<Rightarrow> string \<Rightarrow> string \<Rightarrow> string \<Rightarrow> string \<Rightarrow> int \<Rightarrow> store \<Rightarrow>
   (error + nat) \<times> store" where
  "generate_missed_homework_report_st frepr df first_name_col last_name_col group_col email_col
     scores_start_index h =
     (let required = {first_name_col, last_name_col, group_col, email_col};
          missing = required - set (columns df)
      in if missing \<noteq> {}
         then (Inl (ValueError
           (''Missing required column(s): '' @ py_join '', '' (sorted_list_of_set missing))), h)
         else
           let score_columns = py_slice_from (columns df) scores_start_index
           in if length score_columns = 0
              then (Inl (ValueError
                (''No assignment columns detected. Expected assignment columns from column index ''
                  @ py_str_int scores_start_index @ '' onward.'')), h)
              else
                case new_object (Records []) h of (results_a, h1) \<Rightarrow>
                case iterrows_loop_st frepr first_name_col last_name_col group_col email_col
                       score_columns (iterrows df) results_a h1 of
                  (Inl e, h2) \<Rightarrow> (Inl e, h2)
                | (Inr u, h2) \<Rightarrow> (Inr results_a, h2))"

text \<open>
  What a result is worth in a store: an error as it is, the address of a list of records
  as the records, each with the contents of its \<open>missed\<close> list.
\<close>

definition record_value :: "store \<Rightarrow> stored_record \<Rightarrow> student_record" where
  "record_value h r =
     \<lparr>name = s_name r, group_val = s_group r, email = s_email r,
      missed = str_list_at h (s_missed r)\<rparr>"

definition result_value :: "store \<Rightarrow> error + nat \<Rightarrow> error + student_record list" where
  "result_value h res =
     (case res of
        Inl e \<Rightarrow> Inl e
      | Inr a \<Rightarrow>
          (case lookup h a of
             Some (Records rs) \<Rightarrow> Inr (map (record_value h) rs)
           | _ \<Rightarrow> Inr []))"

text \<open>
  What holds of the store while the rows are processed: the objects of the store of the
  call are still there, unchanged; the list \<open>results\<close> lies behind them, and the \<open>missed\<close>
  lists of its records are other objects of the store.
\<close>

definition results_inv :: "store \<Rightarrow> store \<Rightarrow> nat \<Rightarrow> stored_record list \<Rightarrow> bool" where
  "results_inv h0 h results_a rs =
     (length h0 \<le> results_a \<and> lookup h results_a = Some (Records rs) \<and>
      (\<forall>r \<in> set rs. s_missed r < length h \<and> s_missed r \<noteq> results_a))"

definition grows :: "nat \<Rightarrow> store \<Rightarrow> store \<Rightarrow> bool" where
  "grows results_a h h' =
     (length h \<le> length h' \<and> (\<forall>a < length h. a \<noteq> results_a \<longrightarrow> h' ! a = h ! a))"

section \<open>Closed forms\<close>

text \<open>
  What the two loops compute, without the accumulators: the score columns in which a row
  holds a zero, left to right, and the record that belongs to a row.
\<close>

definition zero_columns :: "series \<Rightarrow> string list \<Rightarrow> string list" where
  "zero_columns row cols =
     filter (\<lambda>c. case map_of row c of None \<Rightarrow> False | Some v \<Rightarrow> pd_notna v \<and> py_eq_zero v) cols"

definition record_for ::
  "float_repr \<Rightarrow> string \<Rightarrow> string \<Rightarrow> string \<Rightarrow> string \<Rightarrow> string list \<Rightarrow> student_record \<Rightarrow> series \<Rightarrow> bool" where
  "record_for frepr fc lc gc ec sc r row =
     (case map_of row fc of None \<Rightarrow> False | Some fv \<Rightarrow>
      case map_of row lc of None \<Rightarrow> False | Some lv \<Rightarrow>
      case map_of row gc of None \<Rightarrow> False | Some gv \<Rightarrow>
      case map_of row ec of None \<Rightarrow> False | Some ev \<Rightarrow>
        r = \<lparr>name = py_strip (py_strip (py_str frepr fv) @ '' '' @ py_strip (py_str frepr lv)),
             group_val = gv,
             email = py_strip (py_str frepr ev),
             missed = zero_columns row sc\<rparr>)"

section \<open>Example data\<close>

text \<open>
  A gradebook with three rows: two misses (an integer and a float zero), none (one score
  blank), and one miss beside a blank score and the text \<open>0\<close>.
\<close>

definition gradebook :: dataframe where
  "gradebook =
     \<lparr>columns = [''First Name'', ''Last Name'', ''Group'', ''Email'', ''HW1'', ''HW2'', ''HW3''],
      rows =
        [[StrV ''Ann'', StrV ''Lee'', IntV 1, StrV ''a@e.edu'', IntV 0, IntV 5, FloatV False 0 0],
         [StrV ''Bob'', StrV ''Ray'', IntV 2, StrV ''b@e.edu'', IntV 7, NaN, IntV 3],
         [StrV ''Cy'', StrV ''Poe'', IntV 1, StrV ''c@e.edu'', NaN, IntV 0, StrV ''0'']]\<rparr>"

definition gradebook_row3 :: series where
  "gradebook_row3 =
     [(''First Name'', StrV ''Cy''), (''Last Name'', StrV ''Poe''), (''Group'', IntV 1),
      (''Email'', StrV ''c@e.edu''), (''HW1'', NaN), (''HW2'', IntV 0), (''HW3'', StrV ''0'')]"

definition gradebook_records :: "student_record list" where
  "gradebook_records =
     [\<lparr>name = ''Ann Lee'', group_val = IntV 1, email = ''a@e.edu'', missed = [''HW1'', ''HW3'']\<rparr>,
      \<lparr>name = ''Cy Poe'', group_val = IntV 1, email = ''c@e.edu'', missed = [''HW2'']\<rparr>]"

text \<open>Frames that fail a validation: identity columns are absent, or no score column is left.\<close>

definition roster_two_missing :: dataframe where
  "roster_two_missing =
     \<lparr>columns = [''First Name'', ''Email'', ''HW1''],
      rows = [[StrV ''Ann'', StrV ''a@e.edu'', IntV 0]]\<rparr>"

definition roster_without_email :: dataframe where
  "roster_without_email =
     \<lparr>columns = [''First Name'', ''Last Name'', ''Group''],
      rows = [[StrV ''Ann'', StrV ''Lee'', IntV 1]]\<rparr>"

definition roster_without_group :: dataframe where
  "roster_without_group =
     \<lparr>columns = [''First Name'', ''Last Name'', ''Email''],
      rows = [[StrV ''Ann'', StrV ''Lee'', StrV ''a@e.edu'']]\<rparr>"

definition roster_without_scores :: dataframe where
  "roster_without_scores =
     \<lparr>columns = [''First Name'', ''Last Name'', ''Group'', ''Email''],
      rows = [[StrV ''Ann'', StrV ''Lee'', IntV 1, StrV ''a@e.edu'']]\<rparr>"

text \<open>
  A gradebook whose first row has both names blank in the sheet, and whose second row has
  a first name of one space.
\<close>

definition nameless_gradebook :: dataframe where
  "nameless_gradebook =
     \<lparr>columns = [''First Name'', ''Last Name'', ''Group'', ''Email'', ''HW1''],
      rows = [[NaN, NaN, IntV 1, StrV ''x@e.edu'', IntV 0],
              [StrV '' '', StrV '' Lee '', IntV 2, StrV ''y@e.edu'', IntV 0]]\<rparr>"

text \<open>A gradebook whose only row has names of one space each.\<close>

definition blank_names_gradebook :: dataframe where
  "blank_names_gradebook =
     \<lparr>columns = [''First Name'', ''Last Name'', ''Group'', ''Email'', ''HW1''],
      rows = [[StrV '' '', StrV '' '', IntV 1, StrV ''a@e.edu'', IntV 0]]\<rparr>"

text \<open>One record with two missed columns, and the mail-merge table built from it.\<close>

definition ann_records :: "student_record list" where
  "ann_records =
     [\<lparr>name = ''Ann Lee'', group_val = IntV 1, email = ''a@e.edu'', missed = [''HW1'', ''HW3'']\<rparr>]"

definition ann_mail_df :: "mail_merge_row list" where
  "ann_mail_df =
     [\<lparr>FirstName = ''Ann'', Email = ''a@e.edu'',
       MissedHomeworks = ''HW1'' @ [CHR 0x0A] @ ''HW3''\<rparr>]"

text \<open>
  A gradebook of one row, and the store after the extractor has run on it from the store
  that holds the frame alone.
\<close>

definition ann_gradebook :: dataframe where
  "ann_gradebook =
     \<lparr>columns = [''First Name'', ''Last Name'', ''Group'', ''Email'', ''HW1'', ''HW2''],
      rows = [[StrV ''Ann'', StrV ''Lee'', IntV 1, StrV ''a@e.edu'', IntV 0, IntV 5]]\<rparr>"

definition ann_store :: store where
  "ann_store =
     [Frame ann_gradebook,
      Records [\<lparr>s_name = ''Ann Lee'', s_group = IntV 1, s_email = ''a@e.edu'', s_missed = 2\<rparr>],
      StrList [''HW1'']]"

section \<open>The loops in closed form\<close>

lemma row_get_labelled: "c \<in> fst ` set row \<Longrightarrow> \<exists>v. map_of row c = Some v \<and> row_get row c = Inr v"
  by (cases "map_of row c") (auto simp: row_get_def map_of_eq_None_iff)

lemma score_columns_loop_closed:
  "set cols \<subseteq> fst ` set row \<Longrightarrow>
   score_columns_loop row cols acc = Inr (acc @ zero_columns row cols)"
proof (induction cols arbitrary: acc)
  case Nil
  then show ?case by (simp add: zero_columns_def)
next
  case (Cons c cols)
  from Cons.prems obtain v where v: "map_of row c = Some v" "row_get row c = Inr v"
    using row_get_labelled [of c row] by auto
  from Cons.prems have sub: "set cols \<subseteq> fst ` set row" by simp
  show ?case
    using v Cons.IH [OF sub] by (simp add: zero_columns_def)
qed

lemma row_body_closed:
  assumes "{fc, lc, gc, ec} \<subseteq> fst ` set row" and "set sc \<subseteq> fst ` set row"
  shows "\<exists>r. record_for frepr fc lc gc ec sc r row \<and>
     row_body frepr fc lc gc ec sc row results =
       Inr (if zero_columns row sc \<noteq> [] then results @ [r] else results)"
proof -
  obtain fv where fv: "map_of row fc = Some fv" "row_get row fc = Inr fv"
    using assms(1) row_get_labelled [of fc row] by auto
  obtain lv where lv: "map_of row lc = Some lv" "row_get row lc = Inr lv"
    using assms(1) row_get_labelled [of lc row] by auto
  obtain gv where gv: "map_of row gc = Some gv" "row_get row gc = Inr gv"
    using assms(1) row_get_labelled [of gc row] by auto
  obtain ev where ev: "map_of row ec = Some ev" "row_get row ec = Inr ev"
    using assms(1) row_get_labelled [of ec row] by auto
  show ?thesis
    using fv lv gv ev score_columns_loop_closed [OF assms(2), of "[]"]
    by (simp add: row_body_def record_for_def)
qed

lemma iterrows_loop_closed:
  assumes "\<forall>row \<in> set rs. {fc, lc, gc, ec} \<subseteq> fst ` set row \<and> set sc \<subseteq> fst ` set row"
  shows "\<exists>recs. iterrows_loop frepr fc lc gc ec sc rs results = Inr (results @ recs) \<and>
     list_all2 (record_for frepr fc lc gc ec sc) recs
       (filter (\<lambda>row. zero_columns row sc \<noteq> []) rs)"
  using assms
proof (induction rs arbitrary: results)
  case Nil
  then show ?case by simp
next
  case (Cons row rs)
  from Cons.prems have here: "{fc, lc, gc, ec} \<subseteq> fst ` set row" "set sc \<subseteq> fst ` set row"
    and rest: "\<forall>row \<in> set rs. {fc, lc, gc, ec} \<subseteq> fst ` set row \<and> set sc \<subseteq> fst ` set row"
    by simp_all
  obtain r where r: "record_for frepr fc lc gc ec sc r row"
    "row_body frepr fc lc gc ec sc row results =
       Inr (if zero_columns row sc \<noteq> [] then results @ [r] else results)"
    using row_body_closed [OF here, of frepr results] by blast
  show ?case
  proof (cases "zero_columns row sc \<noteq> []")
    case True
    obtain recs where recs:
      "iterrows_loop frepr fc lc gc ec sc rs (results @ [r]) = Inr ((results @ [r]) @ recs)"
      "list_all2 (record_for frepr fc lc gc ec sc) recs (filter (\<lambda>row. zero_columns row sc \<noteq> []) rs)"
      using Cons.IH [OF rest, of "results @ [r]"] by blast
    show ?thesis
      using True r recs by (intro exI [of _ "r # recs"]) simp
  next
    case False
    obtain recs where recs:
      "iterrows_loop frepr fc lc gc ec sc rs results = Inr (results @ recs)"
      "list_all2 (record_for frepr fc lc gc ec sc) recs (filter (\<lambda>row. zero_columns row sc \<noteq> []) rs)"
      using Cons.IH [OF rest, of results] by blast
    show ?thesis
      using False r recs by (intro exI [of _ recs]) simp
  qed
qed

lemma iterrows_labels:
  assumes "wf_df df" and "row \<in> set (iterrows df)"
  shows "fst ` set row = set (columns df)"
proof -
  from assms(2) obtain r where r: "r \<in> set (rows df)" "row = zip (columns df) r"
    by (auto simp: iterrows_def)
  with assms(1) have "length r = length (columns df)" by (simp add: wf_df_def)
  with r(2) show ?thesis by (simp add: map_fst_zip flip: set_map)
qed

lemma slice_subset: "set (py_slice_from xs i) \<subseteq> set xs"
  by (auto simp: py_slice_from_def dest: in_set_dropD)

lemma generate_closed:
  assumes wf: "wf_df df"
    and present: "{fc, lc, gc, ec} \<subseteq> set (columns df)"
    and scores: "py_slice_from (columns df) idx \<noteq> []"
  shows "\<exists>recs. generate_missed_homework_report frepr df fc lc gc ec idx = Inr recs \<and>
     list_all2 (record_for frepr fc lc gc ec (py_slice_from (columns df) idx)) recs
       (filter (\<lambda>row. zero_columns row (py_slice_from (columns df) idx) \<noteq> []) (iterrows df))"
proof -
  let ?sc = "py_slice_from (columns df) idx"
  have labels: "\<forall>row \<in> set (iterrows df). {fc, lc, gc, ec} \<subseteq> fst ` set row \<and> set ?sc \<subseteq> fst ` set row"
    using iterrows_labels [OF wf] present slice_subset [of "columns df" idx] by auto
  have none_missing: "{fc, lc, gc, ec} - set (columns df) = {}"
    using present by auto
  have "generate_missed_homework_report frepr df fc lc gc ec idx =
      iterrows_loop frepr fc lc gc ec ?sc (iterrows df) []"
    using scores none_missing unfolding generate_missed_homework_report_def Let_def by simp
  then show ?thesis
    using iterrows_loop_closed [OF labels, of frepr "[]"] by simp
qed

lemma list_all2_left_member:
  "list_all2 P xs ys \<Longrightarrow> x \<in> set xs \<Longrightarrow> \<exists>y \<in> set ys. P x y"
  by (induction rule: list_all2_induct) auto

lemma zero_columns_subseq: "subseq (zero_columns row cols) cols"
  by (simp add: zero_columns_def)

lemma record_for_missed: "record_for frepr fc lc gc ec sc r row \<Longrightarrow> missed r = zero_columns row sc"
  by (auto simp: record_for_def split: option.splits)

lemma zero_columns_empty:
  assumes "set cols \<subseteq> fst ` set row"
    and "\<forall>c \<in> set cols. \<forall>v. row_get row c = Inr v \<longrightarrow> \<not> py_eq_zero v"
  shows "zero_columns row cols = []"
proof -
  have "\<not> (case map_of row c of None \<Rightarrow> False | Some v \<Rightarrow> pd_notna v \<and> py_eq_zero v)"
    if "c \<in> set cols" for c
  proof -
    from that assms(1) obtain v where "map_of row c = Some v" "row_get row c = Inr v"
      using row_get_labelled [of c row] by blast
    with assms(2) that show ?thesis by auto
  qed
  then show ?thesis by (simp add: zero_columns_def)
qed

section \<open>Which columns count as missed\<close>

text \<open>
  The inner loop on a row of the frame: a score column is in the list it returns exactly
  when the row's value there is present and zero. This holds of every row, also of one
  that yields no record.
\<close>

lemma score_columns_loop_member:
  assumes "wf_df df"
    and "row \<in> set (iterrows df)"
    and "col \<in> set (py_slice_from (columns df) idx)"
  shows "\<exists>missed_l v.
     score_columns_loop row (py_slice_from (columns df) idx) [] = Inr missed_l \<and>
     row_get row col = Inr v \<and>
     (col \<in> set missed_l) =
       (v \<noteq> NaN \<and> (v = IntV 0 \<or> (\<exists>s e. v = FloatV s 0 e) \<or> v = BoolV False))"
proof -
  let ?sc = "py_slice_from (columns df) idx"
  have labels: "fst ` set row = set (columns df)"
    using iterrows_labels [OF assms(1,2)] .
  have sub: "set ?sc \<subseteq> fst ` set row"
    using slice_subset [of "columns df" idx] labels by simp
  have loop: "score_columns_loop row ?sc [] = Inr (zero_columns row ?sc)"
    using score_columns_loop_closed [OF sub, of "[]"] by simp
  from assms(3) sub have "col \<in> fst ` set row" by blast
  then obtain v where v: "map_of row col = Some v" "row_get row col = Inr v"
    using row_get_labelled by blast
  have "(col \<in> set (zero_columns row ?sc)) =
      (v \<noteq> NaN \<and> (v = IntV 0 \<or> (\<exists>s e. v = FloatV s 0 e) \<or> v = BoolV False))"
    using assms(3) v(1) by (cases v) (auto simp: zero_columns_def)
  with loop v(2) show ?thesis by blast
qed

lemma zero_columns_member:
  assumes "col \<in> set cols" and "row_get row col = Inr v"
  shows "(col \<in> set (zero_columns row cols)) =
     (v \<noteq> NaN \<and> (v = IntV 0 \<or> (\<exists>s e. v = FloatV s 0 e) \<or> v = BoolV False))"
proof -
  from assms(2) have "map_of row col = Some v"
    by (simp add: row_get_def split: option.splits)
  with assms(1) show ?thesis by (cases v) (auto simp: zero_columns_def)
qed

lemma zero_columns_nonempty:
  assumes "set cols \<subseteq> fst ` set row"
  shows "(zero_columns row cols \<noteq> []) =
     (\<exists>col \<in> set cols. \<exists>v. row_get row col = Inr v \<and>
        v \<noteq> NaN \<and> (v = IntV 0 \<or> (\<exists>s e. v = FloatV s 0 e) \<or> v = BoolV False))"
proof
  assume "zero_columns row cols \<noteq> []"
  then obtain col where col: "col \<in> set (zero_columns row cols)"
    by (cases "zero_columns row cols") auto
  then have in_cols: "col \<in> set cols" by (simp add: zero_columns_def)
  with assms obtain v where v: "row_get row col = Inr v"
    using row_get_labelled [of col row] by blast
  from col zero_columns_member [OF in_cols v] in_cols v
  show "\<exists>col \<in> set cols. \<exists>v. row_get row col = Inr v \<and>
        v \<noteq> NaN \<and> (v = IntV 0 \<or> (\<exists>s e. v = FloatV s 0 e) \<or> v = BoolV False)"
    by blast
next
  assume "\<exists>col \<in> set cols. \<exists>v. row_get row col = Inr v \<and>
        v \<noteq> NaN \<and> (v = IntV 0 \<or> (\<exists>s e. v = FloatV s 0 e) \<or> v = BoolV False)"
  then obtain col v where "col \<in> set cols" "row_get row col = Inr v"
    "v \<noteq> NaN \<and> (v = IntV 0 \<or> (\<exists>s e. v = FloatV s 0 e) \<or> v = BoolV False)"
    by blast
  then have "col \<in> set (zero_columns row cols)"
    using zero_columns_member [of col cols row v] by simp
  then show "zero_columns row cols \<noteq> []" by auto
qed

text \<open>
  Claim C1. With the identity columns present and at least one score column, the
  extractor returns, in row order, one record for each row that holds a present zero in
  a score column, and in each of these records a score column (one at or after the start
  index) is in \<open>missed\<close> exactly when the row's value there is present (not the blank
  marker) and equal to zero: the integer \<open>0\<close>, a float zero or \<open>False\<close>. A blank, a number
  other than zero and a text are not counted, and no other column is in \<open>missed\<close>. The test
  is made for each column on its own value, so a blank column and a zero column of one
  row are judged independently.
\<close>

theorem missed_iff_present_and_zero:
  assumes wf: "wf_df df"
    and present: "{fc, lc, gc, ec} \<subseteq> set (columns df)"
    and scores: "py_slice_from (columns df) idx \<noteq> []"
  shows "\<exists>recs.
     generate_missed_homework_report frepr df fc lc gc ec idx = Inr recs \<and>
     list_all2
       (\<lambda>r row.
          set (missed r) \<subseteq> set (py_slice_from (columns df) idx) \<and>
          (\<forall>col \<in> set (py_slice_from (columns df) idx).
             \<exists>v. row_get row col = Inr v \<and>
               (col \<in> set (missed r)) =
                 (v \<noteq> NaN \<and> (v = IntV 0 \<or> (\<exists>s e. v = FloatV s 0 e) \<or> v = BoolV False))))
       recs
       (filter
          (\<lambda>row. \<exists>col \<in> set (py_slice_from (columns df) idx).
             \<exists>v. row_get row col = Inr v \<and>
               v \<noteq> NaN \<and> (v = IntV 0 \<or> (\<exists>s e. v = FloatV s 0 e) \<or> v = BoolV False))
          (iterrows df))"
proof -
  let ?sc = "py_slice_from (columns df) idx"
  let ?zero = "\<lambda>row. \<exists>col \<in> set ?sc.
     \<exists>v. row_get row col = Inr v \<and>
       v \<noteq> NaN \<and> (v = IntV 0 \<or> (\<exists>s e. v = FloatV s 0 e) \<or> v = BoolV False)"
  have labelled: "set ?sc \<subseteq> fst ` set row" if "row \<in> set (iterrows df)" for row
    using iterrows_labels [OF wf that] slice_subset [of "columns df" idx] by simp
  obtain recs where run: "generate_missed_homework_report frepr df fc lc gc ec idx = Inr recs"
    and each: "list_all2 (record_for frepr fc lc gc ec ?sc) recs
       (filter (\<lambda>row. zero_columns row ?sc \<noteq> []) (iterrows df))"
    using generate_closed [OF wf present scores] by blast
  have same_rows: "filter (\<lambda>row. zero_columns row ?sc \<noteq> []) (iterrows df) =
      filter ?zero (iterrows df)"
    using zero_columns_nonempty [OF labelled] by (intro filter_cong refl) blast
  have "list_all2
       (\<lambda>r row.
          set (missed r) \<subseteq> set ?sc \<and>
          (\<forall>col \<in> set ?sc.
             \<exists>v. row_get row col = Inr v \<and>
               (col \<in> set (missed r)) =
                 (v \<noteq> NaN \<and> (v = IntV 0 \<or> (\<exists>s e. v = FloatV s 0 e) \<or> v = BoolV False))))
       recs (filter (\<lambda>row. zero_columns row ?sc \<noteq> []) (iterrows df))"
    using each
  proof (rule list.rel_mono_strong)
    fix r row
    assume "row \<in> set (filter (\<lambda>row. zero_columns row ?sc \<noteq> []) (iterrows df))"
      and rec: "record_for frepr fc lc gc ec ?sc r row"
    then have row: "row \<in> set (iterrows df)" by simp
    have m: "missed r = zero_columns row ?sc" using rec by (rule record_for_missed)
    have "\<exists>v. row_get row col = Inr v \<and>
        (col \<in> set (missed r)) =
          (v \<noteq> NaN \<and> (v = IntV 0 \<or> (\<exists>s e. v = FloatV s 0 e) \<or> v = BoolV False))"
      if col: "col \<in> set ?sc" for col
    proof -
      from col labelled [OF row] obtain v where v: "row_get row col = Inr v"
        using row_get_labelled [of col row] by blast
      with zero_columns_member [OF col v] m show ?thesis by simp
    qed
    moreover have "set (missed r) \<subseteq> set ?sc" using m by (auto simp: zero_columns_def)
    ultimately show "set (missed r) \<subseteq> set ?sc \<and>
          (\<forall>col \<in> set ?sc.
             \<exists>v. row_get row col = Inr v \<and>
               (col \<in> set (missed r)) =
                 (v \<noteq> NaN \<and> (v = IntV 0 \<or> (\<exists>s e. v = FloatV s 0 e) \<or> v = BoolV False)))"
      by blast
  qed
  with run show ?thesis unfolding same_rows by blast
qed


theorem missed_iff_present_and_zero_witness:
  "wf_df gradebook \<and>
   {''First Name'', ''Last Name'', ''Group'', ''Email''} \<subseteq> set (columns gradebook) \<and>
   py_slice_from (columns gradebook) 4 \<noteq> [] \<and>
   generate_missed_homework_report (\<lambda>s m e. ''0.0'') gradebook
     ''First Name'' ''Last Name'' ''Group'' ''Email'' 4 = Inr gradebook_records \<and>
   gradebook_row3 = iterrows gradebook ! 2 \<and>
   row_get gradebook_row3 ''HW1'' = Inr NaN \<and>
   row_get gradebook_row3 ''HW2'' = Inr (IntV 0) \<and>
   row_get gradebook_row3 ''HW3'' = Inr (StrV ''0'') \<and>
   missed (gradebook_records ! 1) = [''HW2''] \<and>
   list_all2
     (\<lambda>r row.
        set (missed r) \<subseteq> set (py_slice_from (columns gradebook) 4) \<and>
        (\<forall>col \<in> set (py_slice_from (columns gradebook) 4).
           \<exists>v. row_get row col = Inr v \<and>
             (col \<in> set (missed r)) =
               (v \<noteq> NaN \<and> (v = IntV 0 \<or> (\<exists>s e. v = FloatV s 0 e) \<or> v = BoolV False))))
     gradebook_records
     (filter
        (\<lambda>row. \<exists>col \<in> set (py_slice_from (columns gradebook) 4).
           \<exists>v. row_get row col = Inr v \<and>
             v \<noteq> NaN \<and> (v = IntV 0 \<or> (\<exists>s e. v = FloatV s 0 e) \<or> v = BoolV False))
        (iterrows gradebook))"
proof -
  have wf: "wf_df gradebook" by code_simp
  have present:
    "{''First Name'', ''Last Name'', ''Group'', ''Email''} \<subseteq> set (columns gradebook)"
    by code_simp
  have scores: "py_slice_from (columns gradebook) 4 \<noteq> []" by code_simp
  have run: "generate_missed_homework_report (\<lambda>s m e. ''0.0'') gradebook
     ''First Name'' ''Last Name'' ''Group'' ''Email'' 4 = Inr gradebook_records"
    by code_simp
  have row: "gradebook_row3 = iterrows gradebook ! 2" by code_simp
  have r1: "row_get gradebook_row3 ''HW1'' = Inr NaN" by code_simp
  have r2: "row_get gradebook_row3 ''HW2'' = Inr (IntV 0)" by code_simp
  have r3: "row_get gradebook_row3 ''HW3'' = Inr (StrV ''0'')" by code_simp
  have m: "missed (gradebook_records ! 1) = [''HW2'']" by (simp add: gradebook_records_def)
  obtain recs where recs:
    "generate_missed_homework_report (\<lambda>s m e. ''0.0'') gradebook
       ''First Name'' ''Last Name'' ''Group'' ''Email'' 4 = Inr recs"
    "list_all2
     (\<lambda>r row.
        set (missed r) \<subseteq> set (py_slice_from (columns gradebook) 4) \<and>
        (\<forall>col \<in> set (py_slice_from (columns gradebook) 4).
           \<exists>v. row_get row col = Inr v \<and>
             (col \<in> set (missed r)) =
               (v \<noteq> NaN \<and> (v = IntV 0 \<or> (\<exists>s e. v = FloatV s 0 e) \<or> v = BoolV False))))
     recs
     (filter
        (\<lambda>row. \<exists>col \<in> set (py_slice_from (columns gradebook) 4).
           \<exists>v. row_get row col = Inr v \<and>
             v \<noteq> NaN \<and> (v = IntV 0 \<or> (\<exists>s e. v = FloatV s 0 e) \<or> v = BoolV False))
        (iterrows gradebook))"
    using missed_iff_present_and_zero [OF wf present scores, of "\<lambda>s m e. ''0.0''"] by blast
  from recs(1) run have eq: "recs = gradebook_records" by simp
  show ?thesis
    by (intro conjI) (rule wf present scores run row r1 r2 r3 m recs(2) [unfolded eq])+
qed

section \<open>One record for each row with a miss\<close>

text \<open>
  Claim C2. With the identity columns present and at least one score column, the extractor
  returns one record for each row whose list of zero columns is not empty, in row order;
  the \<open>missed\<close> list of each record is not empty and keeps the columns in data frame order.
  If no row holds a zero in a score column, the result is empty.
\<close>

theorem one_record_per_row_with_a_miss:
  assumes wf: "wf_df df"
    and present: "{fc, lc, gc, ec} \<subseteq> set (columns df)"
    and scores: "py_slice_from (columns df) idx \<noteq> []"
  shows "\<exists>recs.
     generate_missed_homework_report frepr df fc lc gc ec idx = Inr recs \<and>
     list_all2 (record_for frepr fc lc gc ec (py_slice_from (columns df) idx)) recs
       (filter (\<lambda>row. zero_columns row (py_slice_from (columns df) idx) \<noteq> []) (iterrows df)) \<and>
     (\<forall>r \<in> set recs. missed r \<noteq> [] \<and> subseq (missed r) (py_slice_from (columns df) idx)) \<and>
     ((\<forall>row \<in> set (iterrows df). \<forall>c \<in> set (py_slice_from (columns df) idx).
         \<forall>v. row_get row c = Inr v \<longrightarrow> \<not> py_eq_zero v) \<longrightarrow> recs = [])"
proof -
  let ?sc = "py_slice_from (columns df) idx"
  let ?qual = "filter (\<lambda>row. zero_columns row ?sc \<noteq> []) (iterrows df)"
  obtain recs where recs:
    "generate_missed_homework_report frepr df fc lc gc ec idx = Inr recs"
    "list_all2 (record_for frepr fc lc gc ec ?sc) recs ?qual"
    using generate_closed [OF wf present scores] by blast
  have each: "missed r \<noteq> [] \<and> subseq (missed r) ?sc" if "r \<in> set recs" for r
  proof -
    from list_all2_left_member [OF recs(2) that]
    obtain row where "row \<in> set ?qual" "record_for frepr fc lc gc ec ?sc r row"
      by blast
    then show ?thesis
      using record_for_missed [of frepr fc lc gc ec ?sc r row] zero_columns_subseq [of row ?sc]
      by simp
  qed
  have none: "recs = []"
    if "\<forall>row \<in> set (iterrows df). \<forall>c \<in> set ?sc. \<forall>v. row_get row c = Inr v \<longrightarrow> \<not> py_eq_zero v"
  proof -
    have "zero_columns row ?sc = []" if "row \<in> set (iterrows df)" for row
    proof (rule zero_columns_empty)
      show "set ?sc \<subseteq> fst ` set row"
        using iterrows_labels [OF wf that] slice_subset [of "columns df" idx] by simp
      show "\<forall>c \<in> set ?sc. \<forall>v. row_get row c = Inr v \<longrightarrow> \<not> py_eq_zero v"
        using \<open>\<forall>row \<in> set (iterrows df). _\<close> that by blast
    qed
    then have "?qual = []" by (simp add: filter_empty_conv)
    with recs(2) show ?thesis by simp
  qed
  show ?thesis
  proof (intro exI conjI)
    show "generate_missed_homework_report frepr df fc lc gc ec idx = Inr recs"
      by (rule recs(1))
    show "list_all2 (record_for frepr fc lc gc ec ?sc) recs ?qual"
      by (rule recs(2))
    show "\<forall>r \<in> set recs. missed r \<noteq> [] \<and> subseq (missed r) ?sc"
      using each by blast
    show "(\<forall>row \<in> set (iterrows df). \<forall>c \<in> set ?sc.
         \<forall>v. row_get row c = Inr v \<longrightarrow> \<not> py_eq_zero v) \<longrightarrow> recs = []"
      using none by blast
  qed
qed


theorem one_record_per_row_with_a_miss_witness:
  "wf_df gradebook \<and>
   {''First Name'', ''Last Name'', ''Group'', ''Email''} \<subseteq> set (columns gradebook) \<and>
   py_slice_from (columns gradebook) 4 \<noteq> [] \<and>
   generate_missed_homework_report (\<lambda>s m e. ''0.0'') gradebook
     ''First Name'' ''Last Name'' ''Group'' ''Email'' 4 = Inr gradebook_records \<and>
   list_all2 (record_for (\<lambda>s m e. ''0.0'') ''First Name'' ''Last Name'' ''Group'' ''Email''
       (py_slice_from (columns gradebook) 4)) gradebook_records
     (filter (\<lambda>row. zero_columns row (py_slice_from (columns gradebook) 4) \<noteq> [])
       (iterrows gradebook))"
proof -
  have wf: "wf_df gradebook" by code_simp
  have present:
    "{''First Name'', ''Last Name'', ''Group'', ''Email''} \<subseteq> set (columns gradebook)"
    by code_simp
  have scores: "py_slice_from (columns gradebook) 4 \<noteq> []" by code_simp
  have run: "generate_missed_homework_report (\<lambda>s m e. ''0.0'') gradebook
     ''First Name'' ''Last Name'' ''Group'' ''Email'' 4 = Inr gradebook_records"
    by code_simp
  obtain recs where recs: "generate_missed_homework_report (\<lambda>s m e. ''0.0'') gradebook
     ''First Name'' ''Last Name'' ''Group'' ''Email'' 4 = Inr recs"
   "list_all2 (record_for (\<lambda>s m e. ''0.0'') ''First Name'' ''Last Name'' ''Group'' ''Email''
       (py_slice_from (columns gradebook) 4)) recs
     (filter (\<lambda>row. zero_columns row (py_slice_from (columns gradebook) 4) \<noteq> [])
       (iterrows gradebook))"
    using one_record_per_row_with_a_miss [OF wf present scores, of "\<lambda>s m e. ''0.0''"] by blast
  from recs(1) run have "recs = gradebook_records" by simp
  with recs(2) wf present scores run show ?thesis by simp
qed
section \<open>Validation\<close>

lemma py_join_contains: "x \<in> set xs \<Longrightarrow> \<exists>pre post. py_join sep xs = pre @ x @ post"
proof (induction sep xs rule: py_join.induct)
  case (1 sep)
  then show ?case by simp
next
  case (2 sep y)
  then have "py_join sep [y] = [] @ x @ []" by simp
  then show ?case by blast
next
  case (3 sep y z zs)
  show ?case
  proof (cases "x = y")
    case True
    then have "py_join sep (y # z # zs) = [] @ x @ (sep @ py_join sep (z # zs))" by simp
    then show ?thesis by blast
  next
    case False
    with "3.prems" have "x \<in> set (z # zs)" by simp
    from "3.IH" [OF this] obtain pre post where "py_join sep (z # zs) = pre @ x @ post"
      by blast
    then have "py_join sep (y # z # zs) = (y @ sep @ pre) @ x @ post" by simp
    then show ?thesis by blast
  qed
qed

text \<open>
  Claim C3. When a configured identity column (first name, last name, group or email) is
  not a column of the data frame, the extractor raises the error whose message lists the
  absent names: all of them, each once, sorted and separated by a comma and a space, so
  that every absent name stands in the message. Nothing is assumed about the rows or the
  start index: the check comes before the score columns are taken and before any row is
  read, and no record is returned.
\<close>

theorem missing_columns_all_listed:
  assumes "\<not> {fc, lc, gc, ec} \<subseteq> set (columns df)"
  shows "\<exists>names.
     generate_missed_homework_report frepr df fc lc gc ec idx =
       Inl (ValueError (''Missing required column(s): '' @ py_join '', '' names)) \<and>
     set names = {fc, lc, gc, ec} - set (columns df) \<and> sorted names \<and> distinct names \<and>
     (\<forall>c \<in> {fc, lc, gc, ec} - set (columns df).
        \<exists>pre post. py_join '', '' names = pre @ c @ post)"
proof -
  let ?missing = "{fc, lc, gc, ec} - set (columns df)"
  let ?names = "sorted_list_of_set ?missing"
  have fin: "finite ?missing" by simp
  have nonempty: "?missing \<noteq> {}" using assms by blast
  have run: "generate_missed_homework_report frepr df fc lc gc ec idx =
      Inl (ValueError (''Missing required column(s): '' @ py_join '', '' ?names))"
    using nonempty unfolding generate_missed_homework_report_def Let_def by simp
  have names: "set ?names = ?missing" using fin by simp
  have "\<exists>pre post. py_join '', '' ?names = pre @ c @ post" if "c \<in> ?missing" for c
    using that names py_join_contains [of c ?names "'', ''"] by simp
  with run names show ?thesis
    by (intro exI [of _ ?names]) simp
qed

theorem missing_columns_all_listed_witness:
  "\<not> {''First Name'', ''Last Name'', ''Group'', ''Email''} \<subseteq> set (columns roster_two_missing) \<and>
   generate_missed_homework_report (\<lambda>s m e. ''0.0'') roster_two_missing
     ''First Name'' ''Last Name'' ''Group'' ''Email'' 2 =
     Inl (ValueError ''Missing required column(s): Group, Last Name'') \<and>
   (\<exists>names. py_join '', '' names = ''Group, Last Name'' \<and> set names = {''Group'', ''Last Name''})"
proof -
  have absent:
    "\<not> {''First Name'', ''Last Name'', ''Group'', ''Email''} \<subseteq> set (columns roster_two_missing)"
    by code_simp
  have run: "generate_missed_homework_report (\<lambda>s m e. ''0.0'') roster_two_missing
     ''First Name'' ''Last Name'' ''Group'' ''Email'' 2 =
     Inl (ValueError ''Missing required column(s): Group, Last Name'')"
    by code_simp
  have diff: "{''First Name'', ''Last Name'', ''Group'', ''Email''} - set (columns roster_two_missing)
     = {''Group'', ''Last Name''}"
    by (auto simp: roster_two_missing_def)
  obtain names where names:
    "generate_missed_homework_report (\<lambda>s m e. ''0.0'') roster_two_missing
       ''First Name'' ''Last Name'' ''Group'' ''Email'' 2 =
       Inl (ValueError (''Missing required column(s): '' @ py_join '', '' names))"
    "set names = {''First Name'', ''Last Name'', ''Group'', ''Email''} - set (columns roster_two_missing)"
    using missing_columns_all_listed [OF absent, of "\<lambda>s m e. ''0.0''" 2] by blast
  from names(1) run have "py_join '', '' names = ''Group, Last Name''" by simp
  moreover from names(2) diff have "set names = {''Group'', ''Last Name''}" by simp
  ultimately show ?thesis using absent run by blast
qed
lemma no_assignment_columns:
  assumes "{fc, lc, gc, ec} \<subseteq> set (columns df)"
    and "py_slice_from (columns df) idx = []"
  shows "generate_missed_homework_report frepr df fc lc gc ec idx =
     Inl (ValueError
       (''No assignment columns detected. Expected assignment columns from column index ''
         @ py_str_int idx @ '' onward.''))"
proof -
  have "{fc, lc, gc, ec} - set (columns df) = {}" using assms(1) by auto
  then show ?thesis
    using assms(2) unfolding generate_missed_homework_report_def Let_def by simp
qed

lemma slice_past_end: "int (length xs) \<le> i \<Longrightarrow> py_slice_from xs i = []"
  by (simp add: py_slice_from_def)

text \<open>
  Claim C4, as stated, fails where an identity column is absent as well: that check comes
  first, and its error is the one raised. Here the start index equals the column count.
\<close>

theorem no_score_columns_missing_identity:
  "py_slice_from (columns roster_without_email) 3 = [] \<and>
   generate_missed_homework_report (\<lambda>s m e. ''0.0'') roster_without_email
     ''First Name'' ''Last Name'' ''Group'' ''Email'' 3 =
     Inl (ValueError ''Missing required column(s): Email'') \<and>
   generate_missed_homework_report (\<lambda>s m e. ''0.0'') roster_without_email
     ''First Name'' ''Last Name'' ''Group'' ''Email'' 3 \<noteq>
     Inl (ValueError
       ''No assignment columns detected. Expected assignment columns from column index 3 onward.'')"
  by code_simp

text \<open>
  Claim C4, amended. When all configured identity columns are present and the start index
  leaves no column at or after it, the extractor raises the error that no assignment
  columns were detected, naming the index; no record is returned.
\<close>

theorem no_score_columns_error:
  assumes "{fc, lc, gc, ec} \<subseteq> set (columns df)"
    and "py_slice_from (columns df) idx = []"
  shows "generate_missed_homework_report frepr df fc lc gc ec idx =
     Inl (ValueError
       (''No assignment columns detected. Expected assignment columns from column index ''
         @ py_str_int idx @ '' onward.''))"
  using assms by (rule no_assignment_columns)

theorem no_score_columns_error_witness:
  "{''First Name'', ''Last Name'', ''Group'', ''Email''} \<subseteq> set (columns roster_without_scores) \<and>
   py_slice_from (columns roster_without_scores) 4 = [] \<and>
   generate_missed_homework_report (\<lambda>s m e. ''0.0'') roster_without_scores
     ''First Name'' ''Last Name'' ''Group'' ''Email'' 4 =
     Inl (ValueError
       ''No assignment columns detected. Expected assignment columns from column index 4 onward.'')"
proof -
  have present:
    "{''First Name'', ''Last Name'', ''Group'', ''Email''} \<subseteq> set (columns roster_without_scores)"
    by code_simp
  have empty: "py_slice_from (columns roster_without_scores) 4 = []" by code_simp
  have four: "py_str_int 4 = ''4''" by code_simp
  from no_score_columns_error [OF present empty, of "\<lambda>s m e. ''0.0''"] four present empty
  show ?thesis by simp
qed

text \<open>
  Claim C10, as stated, fails in the same way: with a start index beyond the column count
  and the group column absent, the error raised is the one for the absent column.
\<close>

theorem start_index_past_end_missing_identity:
  "int (length (columns roster_without_group)) \<le> 7 \<and>
   generate_missed_homework_report (\<lambda>s m e. ''0.0'') roster_without_group
     ''First Name'' ''Last Name'' ''Group'' ''Email'' 7 =
     Inl (ValueError ''Missing required column(s): Group'') \<and>
   generate_missed_homework_report (\<lambda>s m e. ''0.0'') roster_without_group
     ''First Name'' ''Last Name'' ''Group'' ''Email'' 7 \<noteq>
     Inl (ValueError
       ''No assignment columns detected. Expected assignment columns from column index 7 onward.'')"
  by code_simp
text \<open>
  Claim C10, amended. When all configured identity columns are present and the start index
  is at least the column count (equal to it or beyond it), the slice of score columns is
  empty and the extractor raises the error that no assignment columns were detected;
  no lookup fails and no other error is raised.
\<close>

theorem start_index_past_end_error:
  assumes "{fc, lc, gc, ec} \<subseteq> set (columns df)"
    and "int (length (columns df)) \<le> idx"
  shows "py_slice_from (columns df) idx = [] \<and>
     generate_missed_homework_report frepr df fc lc gc ec idx =
       Inl (ValueError
         (''No assignment columns detected. Expected assignment columns from column index ''
           @ py_str_int idx @ '' onward.''))"
  using assms no_assignment_columns [OF assms(1) slice_past_end [OF assms(2)]] slice_past_end
  by blast

theorem start_index_past_end_error_witness:
  "{''First Name'', ''Last Name'', ''Group'', ''Email''} \<subseteq> set (columns gradebook) \<and>
   int (length (columns gradebook)) \<le> 9 \<and>
   py_slice_from (columns gradebook) 9 = [] \<and>
   generate_missed_homework_report (\<lambda>s m e. ''0.0'') gradebook
     ''First Name'' ''Last Name'' ''Group'' ''Email'' 9 =
     Inl (ValueError
       ''No assignment columns detected. Expected assignment columns from column index 9 onward.'')"
proof -
  have present:
    "{''First Name'', ''Last Name'', ''Group'', ''Email''} \<subseteq> set (columns gradebook)"
    by code_simp
  have past: "int (length (columns gradebook)) \<le> 9" by code_simp
  have nine: "py_str_int 9 = ''9''" by code_simp
  from start_index_past_end_error [OF present past, of "\<lambda>s m e. ''0.0''"] nine present past
  show ?thesis by simp
qed

section \<open>The name of a record\<close>

lemma dropWhile_nonempty_last: "dropWhile P xs \<noteq> [] \<Longrightarrow> last (dropWhile P xs) = last xs"
  by (induction xs) (auto split: if_splits)

lemma py_strip_ends:
  assumes "py_strip s \<noteq> []"
  shows "\<not> py_isspace (hd (py_strip s)) \<and> \<not> py_isspace (last (py_strip s))"
proof -
  define t where "t = dropWhile py_isspace s"
  define u where "u = dropWhile py_isspace (rev t)"
  have strip: "py_strip s = rev u" by (simp add: py_strip_def t_def u_def)
  with assms have u: "u \<noteq> []" by simp
  have t: "t \<noteq> []"
  proof
    assume "t = []"
    then have "u = []" by (simp add: u_def)
    with u show False by simp
  qed
  have "\<not> py_isspace (hd u)" using u unfolding u_def by (rule hd_dropWhile)
  then have last_ok: "\<not> py_isspace (last (rev u))" using u by (simp add: last_rev)
  have "last u = last (rev t)" using u unfolding u_def by (rule dropWhile_nonempty_last)
  also have "\<dots> = hd t" using t by (simp add: last_rev)
  finally have "hd (rev u) = hd t" using u by (simp add: hd_rev)
  moreover have "\<not> py_isspace (hd t)" using t unfolding t_def by (rule hd_dropWhile)
  ultimately show ?thesis using last_ok strip by simp
qed

lemma py_strip_fixed:
  assumes "s \<noteq> []" and "\<not> py_isspace (hd s)" and "\<not> py_isspace (last s)"
  shows "py_strip s = s"
proof -
  from assms(1,2) have front: "dropWhile py_isspace s = s" by (cases s) simp_all
  from assms(1,3) have "dropWhile py_isspace (rev s) = rev s"
    by (cases "rev s") (simp_all add: hd_rev [symmetric])
  with front show ?thesis by (simp add: py_strip_def)
qed

lemma space_is_space: "py_isspace CHR '' ''"
  by (simp add: py_isspace_def)

lemma py_strip_drops_front: "py_isspace c \<Longrightarrow> py_strip (c # s) = py_strip s"
  by (simp add: py_strip_def)

lemma py_strip_blank: "\<forall>c \<in> set t. py_isspace c \<Longrightarrow> py_strip t = []"
proof -
  assume "\<forall>c \<in> set t. py_isspace c"
  then have "dropWhile py_isspace t = []" by (simp only: dropWhile_eq_Nil_conv)
  then show ?thesis by (simp only: py_strip_def rev.simps dropWhile.simps)
qed

lemma py_strip_drops_back:
  assumes "py_isspace c"
  shows "py_strip (s @ [c]) = py_strip s"
proof (cases "\<forall>x \<in> set s. py_isspace x")
  case True
  with assms have "\<forall>x \<in> set (s @ [c]). py_isspace x" by simp
  then have "py_strip (s @ [c]) = []" by (rule py_strip_blank)
  moreover have "py_strip s = []" using True by (rule py_strip_blank)
  ultimately show ?thesis by simp
next
  case False
  then have "dropWhile py_isspace (s @ [c]) = dropWhile py_isspace s @ [c]"
    by (metis dropWhile_append1)
  with assms show ?thesis by (simp add: py_strip_def)
qed

lemma py_strip_idem: "py_strip (py_strip s) = py_strip s"
proof (cases "py_strip s = []")
  case True
  have "py_strip [] = []" by (simp add: py_strip_def)
  with True show ?thesis by (simp only:)
next
  case False
  then show ?thesis using py_strip_ends [OF False] by (intro py_strip_fixed) simp_all
qed

lemma py_strip_of_tokens:
  assumes a: "a = py_strip x" and b: "b = py_strip y"
  shows "py_strip (a @ '' '' @ b) =
     (if a = [] then b else if b = [] then a else a @ '' '' @ b)"
proof -
  have sa: "py_strip a = a" and sb: "py_strip b = b"
    using a b by (simp_all add: py_strip_idem)
  show ?thesis
  proof (cases "a = []")
    case True
    then show ?thesis using sb py_strip_drops_front [OF space_is_space, of b] by simp
  next
    case a_ne: False
    show ?thesis
    proof (cases "b = []")
      case True
      then show ?thesis
        using a_ne sa py_strip_drops_back [OF space_is_space, of a] by simp
    next
      case b_ne: False
      have "\<not> py_isspace (hd a)" using a a_ne py_strip_ends [of x] by simp
      moreover have "\<not> py_isspace (last b)" using b b_ne py_strip_ends [of y] by simp
      ultimately have "py_strip (a @ '' '' @ b) = a @ '' '' @ b"
        using a_ne b_ne by (intro py_strip_fixed) simp_all
      with a_ne b_ne show ?thesis by simp
    qed
  qed
qed

lemma py_strip_nan: "py_strip ''nan'' = ''nan''"
  by (simp add: py_strip_def py_isspace_def)

lemma record_for_name:
  assumes "record_for frepr fc lc gc ec sc r row"
  shows "case map_of row fc of None \<Rightarrow> False | Some fv \<Rightarrow>
     (case map_of row lc of None \<Rightarrow> False | Some lv \<Rightarrow>
        name r = py_strip (py_strip (py_str frepr fv) @ '' '' @ py_strip (py_str frepr lv)) \<and>
        name r =
          (if py_strip (py_str frepr fv) = [] then py_strip (py_str frepr lv)
           else if py_strip (py_str frepr lv) = [] then py_strip (py_str frepr fv)
           else py_strip (py_str frepr fv) @ '' '' @ py_strip (py_str frepr lv)))"
proof -
  from assms obtain fv lv where v: "map_of row fc = Some fv" "map_of row lc = Some lv"
    and n: "name r = py_strip (py_strip (py_str frepr fv) @ '' '' @ py_strip (py_str frepr lv))"
    by (auto simp: record_for_def split: option.splits)
  show ?thesis
    using v n py_strip_of_tokens [OF refl refl, of "py_str frepr fv" "py_str frepr lv"]
    by simp
qed

text \<open>
  What the code computes as the name of a record: the trimmed text of the first-name
  value, a single space and the trimmed text of the last-name value, trimmed as a whole,
  so that an empty token leaves the other token alone. For a text value the token is the
  trimmed text, empty for a blank text, which is what claim C5 says. For an absent value
  \<open>str\<close> gives the text \<open>nan\<close>, and that is the token.
\<close>

lemma name_from_trimmed_values:
  assumes wf: "wf_df df"
    and present: "{fc, lc, gc, ec} \<subseteq> set (columns df)"
    and scores: "py_slice_from (columns df) idx \<noteq> []"
  shows "\<exists>recs.
     generate_missed_homework_report frepr df fc lc gc ec idx = Inr recs \<and>
     list_all2
       (\<lambda>r row. case map_of row fc of None \<Rightarrow> False | Some fv \<Rightarrow>
          (case map_of row lc of None \<Rightarrow> False | Some lv \<Rightarrow>
             name r = py_strip (py_strip (py_str frepr fv) @ '' '' @ py_strip (py_str frepr lv)) \<and>
             name r =
               (if py_strip (py_str frepr fv) = [] then py_strip (py_str frepr lv)
                else if py_strip (py_str frepr lv) = [] then py_strip (py_str frepr fv)
                else py_strip (py_str frepr fv) @ '' '' @ py_strip (py_str frepr lv))))
       recs
       (filter (\<lambda>row. zero_columns row (py_slice_from (columns df) idx) \<noteq> []) (iterrows df)) \<and>
     py_strip (py_str frepr NaN) = ''nan'' \<and>
     (\<forall>t. py_strip (py_str frepr (StrV t)) = py_strip t) \<and>
     (\<forall>t. (\<forall>c \<in> set t. py_isspace c) \<longrightarrow> py_strip (py_str frepr (StrV t)) = [])"
proof -
  obtain recs where recs:
    "generate_missed_homework_report frepr df fc lc gc ec idx = Inr recs"
    "list_all2 (record_for frepr fc lc gc ec (py_slice_from (columns df) idx)) recs
       (filter (\<lambda>row. zero_columns row (py_slice_from (columns df) idx) \<noteq> []) (iterrows df))"
    using generate_closed [OF wf present scores] by blast
  show ?thesis
  proof (intro exI conjI allI impI)
    show "generate_missed_homework_report frepr df fc lc gc ec idx = Inr recs"
      by (rule recs(1))
    show "list_all2
       (\<lambda>r row. case map_of row fc of None \<Rightarrow> False | Some fv \<Rightarrow>
          (case map_of row lc of None \<Rightarrow> False | Some lv \<Rightarrow>
             name r = py_strip (py_strip (py_str frepr fv) @ '' '' @ py_strip (py_str frepr lv)) \<and>
             name r =
               (if py_strip (py_str frepr fv) = [] then py_strip (py_str frepr lv)
                else if py_strip (py_str frepr lv) = [] then py_strip (py_str frepr fv)
                else py_strip (py_str frepr fv) @ '' '' @ py_strip (py_str frepr lv))))
       recs
       (filter (\<lambda>row. zero_columns row (py_slice_from (columns df) idx) \<noteq> []) (iterrows df))"
      using recs(2) by (rule list_all2_mono) (rule record_for_name)
    show "py_strip (py_str frepr NaN) = ''nan''"
      by (simp add: py_strip_nan)
    show "py_strip (py_str frepr (StrV t)) = py_strip t" for t
      by simp
    show "py_strip (py_str frepr (StrV t)) = []" if "\<forall>c \<in> set t. py_isspace c" for t
      using py_strip_blank [OF that] by simp
  qed
qed

text \<open>
  Claim C5 does not hold of the code for an absent name. The claim says that an absent
  value gives the empty token, so that a row with both names absent gets the empty name.
  In the first row of this gradebook both name cells are the blank marker; the code
  applies \<open>str\<close> to them without asking \<open>pd.notna\<close>, as it does for the scores, and the
  record gets the name \<open>nan nan\<close>. The second row, with a blank text as first name, gets
  the name the claim says.
\<close>

theorem absent_names_give_nan:
  "iterrows nameless_gradebook ! 0 =
     [(''First Name'', NaN), (''Last Name'', NaN), (''Group'', IntV 1),
      (''Email'', StrV ''x@e.edu''), (''HW1'', IntV 0)] \<and>
   generate_missed_homework_report (\<lambda>s m e. ''0.0'') nameless_gradebook
     ''First Name'' ''Last Name'' ''Group'' ''Email'' 4 =
     Inr [\<lparr>name = ''nan nan'', group_val = IntV 1, email = ''x@e.edu'', missed = [''HW1'']\<rparr>,
          \<lparr>name = ''Lee'', group_val = IntV 2, email = ''y@e.edu'', missed = [''HW1'']\<rparr>]"
  by code_simp

section \<open>The rows of the mail-merge table\<close>

text \<open>
  Where every name has a token, the table has one row for each record, in order: the
  first token of the name, the email, and the missed columns joined by newlines.
\<close>

lemma mail_merge_loop_closed:
  assumes "\<forall>r \<in> set rs. py_split (name r) \<noteq> []"
  shows "mail_merge_loop rs acc =
     Inr (acc @ map (\<lambda>r. \<lparr>FirstName = hd (py_split (name r)), Email = email r,
                            MissedHomeworks = py_join [CHR 0x0A] (missed r)\<rparr>) rs)"
  using assms
proof (induction rs arbitrary: acc)
  case Nil
  then show ?case by simp
next
  case (Cons r rs)
  from Cons.prems obtain w ws where w: "py_split (name r) = w # ws"
    by (cases "py_split (name r)") auto
  from Cons.prems have "\<forall>r \<in> set rs. py_split (name r) \<noteq> []" by simp
  from Cons.IH [OF this] w show ?case by simp
qed

text \<open>
  Claim C6 does not hold of the code for a record whose name has no token. Such a record
  comes out of the extractor for a row whose name cells hold only spaces; for it the
  expression \<open>r["name"].split()[0]\<close> raises \<open>IndexError\<close>, and no table is built.
\<close>

theorem mail_merge_fails_on_blank_name:
  "generate_missed_homework_report (\<lambda>s m e. ''0.0'') blank_names_gradebook
     ''First Name'' ''Last Name'' ''Group'' ''Email'' 4 =
     Inr [\<lparr>name = [], group_val = IntV 1, email = ''a@e.edu'', missed = [''HW1'']\<rparr>] \<and>
   build_mail_merge_dataframe
     [\<lparr>name = [], group_val = IntV 1, email = ''a@e.edu'', missed = [''HW1'']\<rparr>] =
     Inl IndexError"
  by code_simp

section \<open>The paragraphs of the Word report\<close>

lemma missed_loop_closed: "missed_loop doc as = doc @ map (\<lambda>a. (ListBullet, '' '' @ a)) as"
  by (induction as arbitrary: doc) (simp_all add: add_paragraph_def)

lemma records_loop_closed:
  "records_loop frepr doc rs =
     doc @ concat (map (\<lambda>r.
       (Heading 1, name r @ '', '' @ py_str frepr (group_val r) @ '', '' @ email r)
         # map (\<lambda>a. (ListBullet, '' '' @ a)) (missed r)) rs)"
  by (induction rs arbitrary: doc) (simp_all add: missed_loop_closed add_heading_def)

text \<open>
  Claim C7. The document starts with the title as its top-level heading. For no records
  it holds one more paragraph, the note that no students were found, and no further
  heading. Otherwise it holds, for each record in order, a level-1 heading made of the
  name, the group and the email separated by a comma and a space, followed by one bullet
  for each entry of \<open>missed\<close>, in order, the entry behind one space.
\<close>

theorem word_report_structure:
  "build_word_report_bytes frepr records title =
     (Title, title) #
       (if records = []
        then [(Default, ''No students with missed homework were found.'')]
        else concat (map (\<lambda>r.
          (Heading 1, name r @ '', '' @ py_str frepr (group_val r) @ '', '' @ email r)
            # map (\<lambda>a. (ListBullet, '' '' @ a)) (missed r)) records))"
  by (simp add: build_word_report_bytes_def records_loop_closed add_heading_def add_paragraph_def)

section \<open>The CSV export read back\<close>

lemma parse_quoted_body:
  "csv_parse_from Quoted cur rec out
     (concat (map (\<lambda>c. if c = CHR 0x22 then [c, c] else [c]) f) @ CHR 0x22 # rest) =
   csv_parse_from QuoteSeen (cur @ f) rec out rest"
proof (induction f arbitrary: cur)
  case Nil
  then show ?case by (simp add: csv_parse_from.simps)
next
  case (Cons c f)
  show ?case
  proof (cases "c = CHR 0x22")
    case True
    then show ?thesis using Cons [of "cur @ [c]"] by (simp add: csv_parse_from.simps)
  next
    case False
    then show ?thesis using Cons [of "cur @ [c]"] by (simp add: csv_parse_from.simps)
  qed
qed

lemma parse_quoted_field:
  assumes "st = RecordStart \<or> st = FieldStart"
  shows "csv_parse_from st [] rec out (csv_field f @ rest) =
     csv_parse_from QuoteSeen f rec out rest"
proof -
  have "csv_parse_from st [] rec out (csv_field f @ rest) =
      csv_parse_from Quoted [] rec out
        (concat (map (\<lambda>c. if c = CHR 0x22 then [c, c] else [c]) f) @ CHR 0x22 # rest)"
    using assms by (auto simp: csv_field_def csv_parse_from.simps)
  then show ?thesis by (simp add: parse_quoted_body)
qed

lemma parse_line_end:
  assumes "lt = [CHR 0x0A] \<or> lt = [CHR 0x0D, CHR 0x0A]"
  shows "csv_parse_from QuoteSeen f rec out (lt @ rest) =
     csv_parse_from RecordStart [] [] (out @ [rec @ [f]]) rest"
  using assms by (auto simp: csv_parse_from.simps end_record_def skip_lf_def)

lemma parse_line:
  assumes lt: "lt = [CHR 0x0A] \<or> lt = [CHR 0x0D, CHR 0x0A]"
    and st: "st = RecordStart \<or> st = FieldStart"
    and fs: "fs \<noteq> []"
  shows "csv_parse_from st [] rec out (csv_line lt fs @ rest) =
     csv_parse_from RecordStart [] [] (out @ [rec @ fs]) rest"
  using fs st
proof (induction fs arbitrary: st rec)
  case Nil
  then show ?case by simp
next
  case (Cons f fs)
  show ?case
  proof (cases fs)
    case Nil
    then show ?thesis
      using parse_quoted_field [OF Cons.prems(2), of rec out f "lt @ rest"]
        parse_line_end [OF lt, of f rec out rest]
      by (simp add: csv_line_def)
  next
    case (Cons g gs)
    have step: "csv_parse_from QuoteSeen f rec out (CHR '','' # csv_line lt fs @ rest) =
        csv_parse_from FieldStart [] (rec @ [f]) out (csv_line lt fs @ rest)"
      by (simp add: csv_parse_from.simps)
    have "csv_parse_from FieldStart [] (rec @ [f]) out (csv_line lt fs @ rest) =
        csv_parse_from RecordStart [] [] (out @ [(rec @ [f]) @ fs]) rest"
      using Cons by (intro Cons.IH) simp_all
    with step show ?thesis
      using Cons parse_quoted_field [OF Cons.prems(2), of rec out f "CHR '','' # csv_line lt fs @ rest"]
      by (simp add: csv_line_def)
  qed
qed

lemma parse_lines:
  assumes lt: "lt = [CHR 0x0A] \<or> lt = [CHR 0x0D, CHR 0x0A]"
    and "\<forall>fs \<in> set rs. fs \<noteq> []"
  shows "csv_parse_from RecordStart [] [] out (concat (map (csv_line lt) rs)) = Some (out @ rs)"
  using assms(2)
proof (induction rs arbitrary: out)
  case Nil
  then show ?case by (simp add: csv_parse_from.simps)
next
  case (Cons fs rs)
  from Cons.prems have fs: "fs \<noteq> []" and rest: "\<forall>fs \<in> set rs. fs \<noteq> []" by simp_all
  have "csv_parse_from RecordStart [] [] out (csv_line lt fs @ concat (map (csv_line lt) rs)) =
      csv_parse_from RecordStart [] [] (out @ [fs]) (concat (map (csv_line lt) rs))"
    using parse_line [OF lt _ fs, of RecordStart "[]" out] by simp
  then show ?case using Cons.IH [OF rest, of "out @ [fs]"] by simp
qed

lemma utf_8_decode_two:
  assumes "b = 194 \<or> b = 195" and "128 \<le> b2" and "b2 < 192"
  shows "utf_8_decode (b # b2 # bs) =
     map_option ((#) (char_of ((b - 192) * 64 + (b2 - 128)))) (utf_8_decode bs)"
proof -
  from assms(1) have "\<not> b < 128" by auto
  with assms show ?thesis by (simp only: utf_8_decode.simps if_True if_False simp_thms)
qed

lemma utf_8_decode_one:
  assumes "b < 128"
  shows "utf_8_decode (b # bs) = map_option ((#) (char_of b)) (utf_8_decode bs)"
  using assms by (cases bs) simp_all

lemma utf_8_decode_char: "utf_8_decode (utf_8 c @ bs) = map_option ((#) c) (utf_8_decode bs)"
proof (cases "of_char c < (128 :: nat)")
  case True
  then have "utf_8 c @ bs = of_char c # bs" by (simp add: utf_8_def)
  with True show ?thesis using utf_8_decode_one [of "of_char c" bs] by simp
next
  case False
  define n :: nat where "n = of_char c"
  have c: "char_of n = c" by (simp add: n_def)
  have lt: "n < 256" by (simp add: n_def)
  from False have ge: "128 \<le> n" by (simp add: n_def)
  have "128 div 64 \<le> n div 64" using ge by (rule div_le_mono)
  then have "2 \<le> n div 64" by simp
  moreover have "n div 64 < 4" using lt by (simp add: div_less_iff_less_mult)
  ultimately have hi: "192 + n div 64 = 194 \<or> 192 + n div 64 = 195" by linarith
  have lo: "128 \<le> 128 + n mod 64" "128 + n mod 64 < 192" by simp_all
  have whole: "(192 + n div 64 - 192) * 64 + (128 + n mod 64 - 128) = n" by simp
  have enc: "utf_8 c @ bs = (192 + n div 64) # (128 + n mod 64) # bs"
    using False by (simp add: utf_8_def n_def)
  show ?thesis
    unfolding enc utf_8_decode_two [OF hi lo] whole c ..
qed

lemma utf_8_decode_encode: "utf_8_decode (concat (map utf_8 s)) = Some s"
  by (induction s) (simp_all add: utf_8_decode_char)

lemma decode_utf_8_sig_encode: "decode_utf_8_sig (encode_utf_8_sig s) = Some s"
  by (simp add: decode_utf_8_sig_def encode_utf_8_sig_def utf_8_decode_encode)

lemma csv_parse_to_csv:
  assumes "lt = [CHR 0x0A] \<or> lt = [CHR 0x0D, CHR 0x0A]"
  shows "csv_parse (to_csv lt mail_df) =
     Some ([''FirstName'', ''Email'', ''MissedHomeworks''] #
           map (\<lambda>r. [FirstName r, Email r, MissedHomeworks r]) mail_df)"
proof -
  let ?rs = "[''FirstName'', ''Email'', ''MissedHomeworks''] #
           map (\<lambda>r. [FirstName r, Email r, MissedHomeworks r]) mail_df"
  have "to_csv lt mail_df = concat (map (csv_line lt) ?rs)"
    by (simp add: to_csv_def comp_def)
  moreover have "\<forall>fs \<in> set ?rs. fs \<noteq> []" by auto
  ultimately show ?thesis
    using parse_lines [OF assms, of ?rs "[]"] by (simp add: csv_parse_def)
qed


lemma mail_merge_loop_result:
  "mail_merge_loop rs acc = Inr res \<Longrightarrow>
   res = acc @ map (\<lambda>r. \<lparr>FirstName = hd (py_split (name r)), Email = email r,
                            MissedHomeworks = py_join [CHR 0x0A] (missed r)\<rparr>) rs"
proof (induction rs arbitrary: acc)
  case Nil
  then show ?case by simp
next
  case (Cons r rs)
  show ?case
  proof (cases "py_split (name r)")
    case Nil
    with Cons.prems show ?thesis by simp
  next
    case (Cons w ws)
    with Cons.prems have "mail_merge_loop rs
        (acc @ [\<lparr>FirstName = w, Email = email r,
                   MissedHomeworks = py_join [CHR 0x0A] (missed r)\<rparr>]) = Inr res"
      by simp
    from Cons.IH [OF this] Cons show ?thesis by simp
  qed
qed

lemma utf_8_header:
  "concat (map utf_8 (csv_line lt [''FirstName'', ''Email'', ''MissedHomeworks''] @ s)) =
     [34, 70, 105, 114, 115, 116, 78, 97, 109, 101, 34, 44,
      34, 69, 109, 97, 105, 108, 34, 44,
      34, 77, 105, 115, 115, 101, 100, 72, 111, 109, 101, 119, 111, 114, 107, 115, 34] @
     concat (map utf_8 (lt @ s))"
  by (simp add: csv_line_def csv_field_def utf_8_def)

text \<open>
  Claim C8. For at least one record, a table that was built and a line terminator that
  is a line feed or a carriage return and a line feed, the export is the byte order mark
  followed by the UTF-8 bytes of the CSV text. The text starts with the header row
  \<open>"FirstName","Email","MissedHomeworks"\<close>; each of its lines is the comma-separated
  list of its fields, every one between double quotes. Decoding the bytes gives the text
  back, and the reader of quoted CSV gives back the header and, for each row, its three
  fields, the third being the missed columns joined by newlines: a newline inside the
  quoted field is part of the field and does not end the row.
\<close>

theorem csv_export_round_trip:
  assumes lt: "lineterminator = [CHR 0x0A] \<or> lineterminator = [CHR 0x0D, CHR 0x0A]"
    and nonempty: "records \<noteq> []"
    and built: "build_mail_merge_dataframe records = Inr mail_df"
  shows "mail_merge_csv_bytes lineterminator records =
       Some (Inr (encode_utf_8_sig (to_csv lineterminator mail_df))) \<and>
     (\<exists>rest. encode_utf_8_sig (to_csv lineterminator mail_df) =
        [239, 187, 191] @
        [34, 70, 105, 114, 115, 116, 78, 97, 109, 101, 34, 44,
         34, 69, 109, 97, 105, 108, 34, 44,
         34, 77, 105, 115, 115, 101, 100, 72, 111, 109, 101, 119, 111, 114, 107, 115, 34] @
        rest) \<and>
     to_csv lineterminator mail_df =
       concat (map (\<lambda>fs. py_join '','' (map csv_field fs) @ lineterminator)
         ([''FirstName'', ''Email'', ''MissedHomeworks''] #
          map (\<lambda>r. [FirstName r, Email r, MissedHomeworks r]) mail_df)) \<and>
     decode_utf_8_sig (encode_utf_8_sig (to_csv lineterminator mail_df)) =
       Some (to_csv lineterminator mail_df) \<and>
     csv_parse (to_csv lineterminator mail_df) =
       Some ([''FirstName'', ''Email'', ''MissedHomeworks''] #
             map (\<lambda>r. [FirstName r, Email r, MissedHomeworks r]) mail_df) \<and>
     map MissedHomeworks mail_df = map (\<lambda>r. py_join [CHR 0x0A] (missed r)) records"
proof (intro conjI)
  show "mail_merge_csv_bytes lineterminator records =
       Some (Inr (encode_utf_8_sig (to_csv lineterminator mail_df)))"
    using nonempty built by (simp add: mail_merge_csv_bytes_def)
  show "\<exists>rest. encode_utf_8_sig (to_csv lineterminator mail_df) =
        [239, 187, 191] @
        [34, 70, 105, 114, 115, 116, 78, 97, 109, 101, 34, 44,
         34, 69, 109, 97, 105, 108, 34, 44,
         34, 77, 105, 115, 115, 101, 100, 72, 111, 109, 101, 119, 111, 114, 107, 115, 34] @
        rest"
    unfolding encode_utf_8_sig_def to_csv_def utf_8_header by blast
  show "to_csv lineterminator mail_df =
       concat (map (\<lambda>fs. py_join '','' (map csv_field fs) @ lineterminator)
         ([''FirstName'', ''Email'', ''MissedHomeworks''] #
          map (\<lambda>r. [FirstName r, Email r, MissedHomeworks r]) mail_df))"
    by (simp add: to_csv_def csv_line_def comp_def)
  show "decode_utf_8_sig (encode_utf_8_sig (to_csv lineterminator mail_df)) =
       Some (to_csv lineterminator mail_df)"
    by (rule decode_utf_8_sig_encode)
  show "csv_parse (to_csv lineterminator mail_df) =
       Some ([''FirstName'', ''Email'', ''MissedHomeworks''] #
             map (\<lambda>r. [FirstName r, Email r, MissedHomeworks r]) mail_df)"
    using lt by (rule csv_parse_to_csv)
  show "map MissedHomeworks mail_df = map (\<lambda>r. py_join [CHR 0x0A] (missed r)) records"
    using mail_merge_loop_result [of records "[]" mail_df] built
    by (simp add: build_mail_merge_dataframe_def comp_def)
qed

theorem csv_export_round_trip_witness:
  "ann_records \<noteq> [] \<and>
   build_mail_merge_dataframe ann_records = Inr ann_mail_df \<and>
   mail_merge_csv_bytes [CHR 0x0A] ann_records =
     Some (Inr
       [239, 187, 191,
        34, 70, 105, 114, 115, 116, 78, 97, 109, 101, 34, 44,
        34, 69, 109, 97, 105, 108, 34, 44,
        34, 77, 105, 115, 115, 101, 100, 72, 111, 109, 101, 119, 111, 114, 107, 115, 34, 10,
        34, 65, 110, 110, 34, 44, 34, 97, 64, 101, 46, 101, 100, 117, 34, 44,
        34, 72, 87, 49, 10, 72, 87, 51, 34, 10]) \<and>
   csv_parse (to_csv [CHR 0x0A] ann_mail_df) =
     Some [[''FirstName'', ''Email'', ''MissedHomeworks''],
           [''Ann'', ''a@e.edu'', ''HW1'' @ [CHR 0x0A] @ ''HW3'']]"
proof -
  have lt: "[CHR 0x0A] = [CHR 0x0A] \<or> [CHR 0x0A] = [CHR 0x0D, CHR 0x0A]" by simp
  have nonempty: "ann_records \<noteq> []" by (simp add: ann_records_def)
  have built: "build_mail_merge_dataframe ann_records = Inr ann_mail_df" by code_simp
  have bytes: "encode_utf_8_sig (to_csv [CHR 0x0A] ann_mail_df) =
       [239, 187, 191,
        34, 70, 105, 114, 115, 116, 78, 97, 109, 101, 34, 44,
        34, 69, 109, 97, 105, 108, 34, 44,
        34, 77, 105, 115, 115, 101, 100, 72, 111, 109, 101, 119, 111, 114, 107, 115, 34, 10,
        34, 65, 110, 110, 34, 44, 34, 97, 64, 101, 46, 101, 100, 117, 34, 44,
        34, 72, 87, 49, 10, 72, 87, 51, 34, 10]"
    by code_simp
  have fields: "map (\<lambda>r. [FirstName r, Email r, MissedHomeworks r]) ann_mail_df =
      [[''Ann'', ''a@e.edu'', ''HW1'' @ [CHR 0x0A] @ ''HW3'']]"
    by (simp add: ann_mail_df_def)
  note round_trip = csv_export_round_trip [OF lt nonempty built]
  from round_trip have "mail_merge_csv_bytes [CHR 0x0A] ann_records =
      Some (Inr (encode_utf_8_sig (to_csv [CHR 0x0A] ann_mail_df)))"
    by (rule conjunct1)
  then have exported: "mail_merge_csv_bytes [CHR 0x0A] ann_records =
     Some (Inr
       [239, 187, 191,
        34, 70, 105, 114, 115, 116, 78, 97, 109, 101, 34, 44,
        34, 69, 109, 97, 105, 108, 34, 44,
        34, 77, 105, 115, 115, 101, 100, 72, 111, 109, 101, 119, 111, 114, 107, 115, 34, 10,
        34, 65, 110, 110, 34, 44, 34, 97, 64, 101, 46, 101, 100, 117, 34, 44,
        34, 72, 87, 49, 10, 72, 87, 51, 34, 10])"
    by (simp only: bytes)
  from round_trip have "csv_parse (to_csv [CHR 0x0A] ann_mail_df) =
      Some ([''FirstName'', ''Email'', ''MissedHomeworks''] #
            map (\<lambda>r. [FirstName r, Email r, MissedHomeworks r]) ann_mail_df)"
    by blast
  then have parsed: "csv_parse (to_csv [CHR 0x0A] ann_mail_df) =
     Some [[''FirstName'', ''Email'', ''MissedHomeworks''],
           [''Ann'', ''a@e.edu'', ''HW1'' @ [CHR 0x0A] @ ''HW3'']]"
    by (simp only: fields)
  show ?thesis
    by (intro conjI) (rule nonempty built exported parsed)+
qed

section \<open>The extractor changes no object and repeats its result\<close>

lemma lookup_append:
  "lookup (h @ [x]) a =
     (if a < length h then lookup h a else if a = length h then Some x else None)"
  by (simp add: lookup_def nth_append)

lemma lookup_update:
  "lookup (h[a := x]) b = (if b < length h \<and> b = a then Some x else lookup h b)"
  by (simp add: lookup_def)

lemma lookup_in_range: "lookup h a = Some x \<Longrightarrow> a < length h \<and> h ! a = x"
  by (simp add: lookup_def split: if_splits)

lemma grows_refl: "grows a h h"
  by (simp add: grows_def)

lemma grows_trans: "grows a h h' \<Longrightarrow> grows a h' h'' \<Longrightarrow> grows a h h''"
  by (auto simp: grows_def)

lemma score_columns_loop_st_refines:
  assumes "lookup h a = Some (StrList xs)"
  shows "\<exists>ys. snd (score_columns_loop_st row cols a h) = h[a := StrList ys] \<and>
     (case score_columns_loop row cols xs of
        Inl e \<Rightarrow> fst (score_columns_loop_st row cols a h) = Inl e
      | Inr zs \<Rightarrow> fst (score_columns_loop_st row cols a h) = Inr () \<and> ys = zs)"
  using assms
proof (induction cols arbitrary: h xs)
  case Nil
  from lookup_in_range [OF Nil] have "h[a := StrList xs] = h" by (simp add: list_update_same_conv)
  then show ?case by (intro exI [of _ xs]) simp
next
  case (Cons col cols)
  from lookup_in_range [OF Cons.prems] have same: "h[a := StrList xs] = h"
    and range: "a < length h" by (simp_all add: list_update_same_conv)
  show ?case
  proof (cases "row_get row col")
    case (Inl e)
    with same show ?thesis by (intro exI [of _ xs]) simp
  next
    case (Inr val)
    show ?thesis
    proof (cases "pd_notna val \<and> py_eq_zero val")
      case True
      let ?h = "h[a := StrList (xs @ [col])]"
      have app: "append_str a col h = ?h" using Cons.prems by (simp add: append_str_def)
      have "lookup ?h a = Some (StrList (xs @ [col]))" using range by (simp add: lookup_update)
      from Cons.IH [OF this, of ] obtain ys where
        "snd (score_columns_loop_st row cols a ?h) = ?h[a := StrList ys]"
        "case score_columns_loop row cols (xs @ [col]) of
           Inl e \<Rightarrow> fst (score_columns_loop_st row cols a ?h) = Inl e
         | Inr zs \<Rightarrow> fst (score_columns_loop_st row cols a ?h) = Inr () \<and> ys = zs"
        by blast
      with Inr True app show ?thesis by (intro exI [of _ ys]) (auto split: sum.splits)
    next
      case False
      from Cons.IH [OF Cons.prems] obtain ys where
        "snd (score_columns_loop_st row cols a h) = h[a := StrList ys]"
        "case score_columns_loop row cols xs of
           Inl e \<Rightarrow> fst (score_columns_loop_st row cols a h) = Inl e
         | Inr zs \<Rightarrow> fst (score_columns_loop_st row cols a h) = Inr () \<and> ys = zs"
        by blast
      with Inr False show ?thesis by (intro exI [of _ ys]) (auto split: sum.splits)
    qed
  qed
qed


lemma record_value_cong:
  assumes "lookup h' (s_missed r) = lookup h (s_missed r)"
  shows "record_value h' r = record_value h r"
  using assms by (simp add: record_value_def str_list_at_def)

lemma row_body_st_refines:
  assumes inv: "results_inv h0 h ra rs"
  shows "\<exists>rs'. grows ra h (snd (row_body_st frepr fc lc gc ec sc row ra h)) \<and>
     (case row_body frepr fc lc gc ec sc row (map (record_value h) rs) of
        Inl e \<Rightarrow> fst (row_body_st frepr fc lc gc ec sc row ra h) = Inl e
      | Inr acc' \<Rightarrow>
          fst (row_body_st frepr fc lc gc ec sc row ra h) = Inr () \<and>
          results_inv h0 (snd (row_body_st frepr fc lc gc ec sc row ra h)) ra rs' \<and>
          map (record_value (snd (row_body_st frepr fc lc gc ec sc row ra h))) rs' = acc')"
proof -
  from inv have at_ra: "lookup h ra = Some (Records rs)" and above: "length h0 \<le> ra"
    and others: "\<forall>r \<in> set rs. s_missed r < length h \<and> s_missed r \<noteq> ra"
    by (simp_all add: results_inv_def)
  from lookup_in_range [OF at_ra] have ra: "ra < length h" by simp
  consider (failed) e where
      "row_body_st frepr fc lc gc ec sc row ra h = (Inl e, h)"
      "row_body frepr fc lc gc ec sc row (map (record_value h) rs) = Inl e"
    | (looked_up) fv lv gv ev where
      "row_get row fc = Inr fv" "row_get row lc = Inr lv"
      "row_get row gc = Inr gv" "row_get row ec = Inr ev"
    by (cases "row_get row fc"; cases "row_get row lc"; cases "row_get row gc";
        cases "row_get row ec") (auto simp: row_body_st_def row_body_def)
  then show ?thesis
  proof cases
    case failed
    then show ?thesis by (intro exI [of _ rs]) (simp add: grows_refl)
  next
    case looked_up
    let ?h1 = "h @ [StrList []]"
    let ?ma = "length h"
    have "lookup ?h1 ?ma = Some (StrList [])" by (simp add: lookup_append)
    from score_columns_loop_st_refines [OF this, of row sc] obtain ys where
      st: "snd (score_columns_loop_st row sc ?ma ?h1) = h @ [StrList ys]"
      and rel: "case score_columns_loop row sc [] of
           Inl e \<Rightarrow> fst (score_columns_loop_st row sc ?ma ?h1) = Inl e
         | Inr zs \<Rightarrow> fst (score_columns_loop_st row sc ?ma ?h1) = Inr () \<and> ys = zs"
      by auto
    let ?h2 = "h @ [StrList ys]"
    have grows2: "grows ra h ?h2" by (simp add: grows_def nth_append)
    have old2: "lookup ?h2 a = lookup h a" if "a < length h" for a
      using that by (simp add: lookup_append)
    show ?thesis
    proof (cases "score_columns_loop row sc []")
      case (Inl e)
      with rel have "fst (score_columns_loop_st row sc ?ma ?h1) = Inl e" by simp
      with st have "score_columns_loop_st row sc ?ma ?h1 = (Inl e, ?h2)"
        by (metis prod.collapse)
      with looked_up Inl grows2 show ?thesis
        by (intro exI [of _ rs]) (simp add: row_body_st_def row_body_def new_object_def)
    next
      case (Inr zs)
      with rel have "fst (score_columns_loop_st row sc ?ma ?h1) = Inr ()" and ys: "ys = zs"
        by simp_all
      with st have loop: "score_columns_loop_st row sc ?ma ?h1 = (Inr (), ?h2)"
        by (metis prod.collapse)
      have listed: "str_list_at ?h2 ?ma = ys" by (simp add: str_list_at_def lookup_append)
      show ?thesis
      proof (cases "ys = []")
        case True
        have run: "row_body_st frepr fc lc gc ec sc row ra h = (Inr (), ?h2)"
          using looked_up loop listed True by (simp add: row_body_st_def new_object_def)
        have pure: "row_body frepr fc lc gc ec sc row (map (record_value h) rs) =
            Inr (map (record_value h) rs)"
          using looked_up Inr ys True by (simp add: row_body_def)
        have "results_inv h0 ?h2 ra rs"
          using above at_ra others ra by (auto simp: results_inv_def lookup_append)
        moreover have "map (record_value ?h2) rs = map (record_value h) rs"
          using others by (intro map_cong refl record_value_cong) (simp add: old2)
        ultimately show ?thesis
          using run pure grows2 by (intro exI [of _ rs]) simp
      next
        case False
        define sr where "sr =
           \<lparr>s_name = py_strip (py_strip (py_str frepr fv) @ '' '' @ py_strip (py_str frepr lv)),
            s_group = gv, s_email = py_strip (py_str frepr ev), s_missed = ?ma\<rparr>"
        let ?h3 = "?h2[ra := Records (rs @ [sr])]"
        have "lookup ?h2 ra = Some (Records rs)" using at_ra ra by (simp add: old2)
        then have app: "append_record ra sr ?h2 = ?h3" by (simp add: append_record_def)
        have run: "row_body_st frepr fc lc gc ec sc row ra h = (Inr (), ?h3)"
          using looked_up loop listed False app
          by (simp add: row_body_st_def new_object_def sr_def)
        have old3: "lookup ?h3 a = lookup ?h2 a" if "a \<noteq> ra" for a
          using that by (simp add: lookup_update)
        have new_value: "record_value ?h3 sr =
            \<lparr>name = py_strip (py_strip (py_str frepr fv) @ '' '' @ py_strip (py_str frepr lv)),
             group_val = gv, email = py_strip (py_str frepr ev), missed = zs\<rparr>"
          using ra ys by (simp add: record_value_def str_list_at_def sr_def lookup_update lookup_append)
        have pure: "row_body frepr fc lc gc ec sc row (map (record_value h) rs) =
            Inr (map (record_value h) rs @ [record_value ?h3 sr])"
          using looked_up Inr ys False new_value by (simp add: row_body_def)
        have grows3: "grows ra h ?h3" by (simp add: grows_def nth_append)
        have "results_inv h0 ?h3 ra (rs @ [sr])"
          using above others ra by (auto simp: results_inv_def lookup_update sr_def)
        moreover have "map (record_value ?h3) rs = map (record_value h) rs"
          using others by (intro map_cong refl record_value_cong) (simp add: old3 old2)
        ultimately show ?thesis
          using run pure grows3 by (intro exI [of _ "rs @ [sr]"]) simp
      qed
    qed
  qed
qed


lemma iterrows_loop_st_refines:
  assumes "results_inv h0 h ra rs"
  shows "\<exists>rs'. grows ra h (snd (iterrows_loop_st frepr fc lc gc ec sc rws ra h)) \<and>
     (case iterrows_loop frepr fc lc gc ec sc rws (map (record_value h) rs) of
        Inl e \<Rightarrow> fst (iterrows_loop_st frepr fc lc gc ec sc rws ra h) = Inl e
      | Inr acc' \<Rightarrow>
          fst (iterrows_loop_st frepr fc lc gc ec sc rws ra h) = Inr () \<and>
          results_inv h0 (snd (iterrows_loop_st frepr fc lc gc ec sc rws ra h)) ra rs' \<and>
          map (record_value (snd (iterrows_loop_st frepr fc lc gc ec sc rws ra h))) rs' = acc')"
  using assms
proof (induction rws arbitrary: h rs)
  case Nil
  then show ?case by (intro exI [of _ rs]) (simp add: grows_refl)
next
  case (Cons row rws)
  obtain r1 h1 where step: "row_body_st frepr fc lc gc ec sc row ra h = (r1, h1)"
    by fastforce
  from row_body_st_refines [OF Cons.prems, of frepr fc lc gc ec sc row]
  obtain rs1 where g1: "grows ra h h1"
    and rel1: "case row_body frepr fc lc gc ec sc row (map (record_value h) rs) of
        Inl e \<Rightarrow> r1 = Inl e
      | Inr acc' \<Rightarrow> r1 = Inr () \<and> results_inv h0 h1 ra rs1 \<and> map (record_value h1) rs1 = acc'"
    unfolding step fst_conv snd_conv by blast
  show ?case
  proof (cases "row_body frepr fc lc gc ec sc row (map (record_value h) rs)")
    case (Inl e)
    with rel1 step g1 show ?thesis by (intro exI [of _ rs]) simp
  next
    case (Inr acc1)
    with rel1 have r1: "r1 = Inr ()" and inv1: "results_inv h0 h1 ra rs1"
      and acc1: "map (record_value h1) rs1 = acc1"
      by simp_all
    from Cons.IH [OF inv1] obtain rs' where
      g2: "grows ra h1 (snd (iterrows_loop_st frepr fc lc gc ec sc rws ra h1))"
      and rel2: "case iterrows_loop frepr fc lc gc ec sc rws (map (record_value h1) rs1) of
        Inl e \<Rightarrow> fst (iterrows_loop_st frepr fc lc gc ec sc rws ra h1) = Inl e
      | Inr acc' \<Rightarrow>
          fst (iterrows_loop_st frepr fc lc gc ec sc rws ra h1) = Inr () \<and>
          results_inv h0 (snd (iterrows_loop_st frepr fc lc gc ec sc rws ra h1)) ra rs' \<and>
          map (record_value (snd (iterrows_loop_st frepr fc lc gc ec sc rws ra h1))) rs' = acc'"
      by blast
    have run: "iterrows_loop_st frepr fc lc gc ec sc (row # rws) ra h =
        iterrows_loop_st frepr fc lc gc ec sc rws ra h1"
      using step r1 by simp
    have pure: "iterrows_loop frepr fc lc gc ec sc (row # rws) (map (record_value h) rs) =
        iterrows_loop frepr fc lc gc ec sc rws (map (record_value h1) rs1)"
      using Inr acc1 by simp
    from grows_trans [OF g1 g2] rel2 show ?thesis
      unfolding run pure by (intro exI [of _ rs']) simp
  qed
qed

lemma prefix_lookup: "prefix h h' \<Longrightarrow> a < length h \<Longrightarrow> lookup h' a = lookup h a"
  by (auto simp: prefix_def lookup_def nth_append)

lemma prefix_from_nth:
  assumes "length h \<le> length h'" and "\<forall>a < length h. h' ! a = h ! a"
  shows "prefix h h'"
proof -
  have "take (length h) h' = h" using assms by (intro nth_equalityI) simp_all
  then show ?thesis using take_is_prefix [of "length h" h'] by simp
qed

lemma result_value_stable:
  assumes "results_inv h0 h ra rs" and "prefix h h'"
  shows "result_value h' (Inr ra) = Inr (map (record_value h) rs)"
proof -
  from assms(1) have at_ra: "lookup h ra = Some (Records rs)"
    and others: "\<forall>r \<in> set rs. s_missed r < length h"
    by (simp_all add: results_inv_def)
  from lookup_in_range [OF at_ra] have "ra < length h" by simp
  with at_ra have "lookup h' ra = Some (Records rs)"
    using prefix_lookup [OF assms(2)] by simp
  moreover have "map (record_value h') rs = map (record_value h) rs"
    using others prefix_lookup [OF assms(2)] by (intro map_cong refl record_value_cong) simp
  ultimately show ?thesis by (simp add: result_value_def)
qed

lemma generate_st_refines:
  "prefix h (snd (generate_missed_homework_report_st frepr df fc lc gc ec idx h)) \<and>
   (\<forall>h'. prefix (snd (generate_missed_homework_report_st frepr df fc lc gc ec idx h)) h' \<longrightarrow>
      result_value h' (fst (generate_missed_homework_report_st frepr df fc lc gc ec idx h)) =
      generate_missed_homework_report frepr df fc lc gc ec idx)"
proof (cases "{fc, lc, gc, ec} - set (columns df) \<noteq> {} \<or> py_slice_from (columns df) idx = []")
  case True
  then show ?thesis
    by (auto simp: generate_missed_homework_report_st_def generate_missed_homework_report_def
        result_value_def Let_def)
next
  case False
  let ?sc = "py_slice_from (columns df) idx"
  let ?ra = "length h"
  let ?h1 = "h @ [Records []]"
  have inv0: "results_inv h ?h1 ?ra []" by (simp add: results_inv_def lookup_append)
  obtain r2 h2 where loop: "iterrows_loop_st frepr fc lc gc ec ?sc (iterrows df) ?ra ?h1 = (r2, h2)"
    by fastforce
  have "map (record_value ?h1) [] = []" by simp
  with iterrows_loop_st_refines [OF inv0, of frepr fc lc gc ec ?sc "iterrows df"]
  obtain rs' where g: "grows ?ra ?h1 h2"
    and rel: "case iterrows_loop frepr fc lc gc ec ?sc (iterrows df) [] of
        Inl e \<Rightarrow> r2 = Inl e
      | Inr acc' \<Rightarrow> r2 = Inr () \<and> results_inv h h2 ?ra rs' \<and> map (record_value h2) rs' = acc'"
    unfolding loop fst_conv snd_conv list.map by blast
  have pure: "generate_missed_homework_report frepr df fc lc gc ec idx =
      iterrows_loop frepr fc lc gc ec ?sc (iterrows df) []"
    using False by (simp add: generate_missed_homework_report_def Let_def)
  have run: "generate_missed_homework_report_st frepr df fc lc gc ec idx h =
      (case r2 of Inl e \<Rightarrow> (Inl e, h2) | Inr u \<Rightarrow> (Inr ?ra, h2))"
    using False loop
    by (simp add: generate_missed_homework_report_st_def Let_def new_object_def split: sum.splits)
  have kept: "prefix h h2"
  proof (rule prefix_from_nth)
    show "length h \<le> length h2" using g by (simp add: grows_def)
    show "\<forall>a < length h. h2 ! a = h ! a" using g by (auto simp: grows_def nth_append)
  qed
  show ?thesis
  proof (cases "iterrows_loop frepr fc lc gc ec ?sc (iterrows df) []")
    case (Inl e)
    with rel have "r2 = Inl e" by simp
    with run pure Inl kept show ?thesis by (simp add: result_value_def)
  next
    case (Inr acc')
    with rel have r2: "r2 = Inr ()" and inv: "results_inv h h2 ?ra rs'"
      and acc': "map (record_value h2) rs' = acc'"
      by simp_all
    from r2 run have run': "generate_missed_homework_report_st frepr df fc lc gc ec idx h = (Inr ?ra, h2)"
      by simp
    show ?thesis
      unfolding run' pure Inr using kept result_value_stable [OF inv] acc' by simp
  qed
qed

text \<open>
  Claim C9. Called in any store, the extractor leaves every object of that store as it
  was (the store after the call starts with the store before it, so the frame and all
  else that existed is unchanged: what it writes, it writes to lists it has created).
  The value of what it returns is the function \<open>generate_missed_homework_report\<close> of the
  frame and the configuration alone, whatever the store. So a second call, made in the
  store the first one left, again changes nothing that existed and returns a result of
  the same value; the first result is still worth the same after the second call.
\<close>

theorem extractor_leaves_store_and_repeats:
  "case generate_missed_homework_report_st frepr df fc lc gc ec idx h of (r1, h1) \<Rightarrow>
     (case generate_missed_homework_report_st frepr df fc lc gc ec idx h1 of (r2, h2) \<Rightarrow>
        prefix h h1 \<and> prefix h1 h2 \<and>
        result_value h1 r1 = generate_missed_homework_report frepr df fc lc gc ec idx \<and>
        result_value h2 r2 = generate_missed_homework_report frepr df fc lc gc ec idx \<and>
        result_value h2 r1 = result_value h2 r2)"
proof -
  obtain r1 h1 where one: "generate_missed_homework_report_st frepr df fc lc gc ec idx h = (r1, h1)"
    by fastforce
  obtain r2 h2 where two: "generate_missed_homework_report_st frepr df fc lc gc ec idx h1 = (r2, h2)"
    by fastforce
  from generate_st_refines [of h frepr df fc lc gc ec idx] one
  have kept1: "prefix h h1"
    and value1: "\<And>h'. prefix h1 h' \<Longrightarrow>
      result_value h' r1 = generate_missed_homework_report frepr df fc lc gc ec idx"
    by simp_all
  from generate_st_refines [of h1 frepr df fc lc gc ec idx] two
  have kept2: "prefix h1 h2"
    and value2: "\<And>h'. prefix h2 h' \<Longrightarrow>
      result_value h' r2 = generate_missed_homework_report frepr df fc lc gc ec idx"
    by simp_all
  from value1 [of h1] value1 [OF kept2] value2 [of h2] kept1 kept2
  show ?thesis by (simp add: one two)
qed

theorem extractor_leaves_store_and_repeats_witness:
  "generate_missed_homework_report_st (\<lambda>s m e. ''0.0'') ann_gradebook
     ''First Name'' ''Last Name'' ''Group'' ''Email'' 4 [Frame ann_gradebook] =
     (Inr 1, ann_store) \<and>
   generate_missed_homework_report_st (\<lambda>s m e. ''0.0'') ann_gradebook
     ''First Name'' ''Last Name'' ''Group'' ''Email'' 4 ann_store =
     (Inr 3,
      ann_store @
      [Records [\<lparr>s_name = ''Ann Lee'', s_group = IntV 1, s_email = ''a@e.edu'', s_missed = 4\<rparr>],
       StrList [''HW1'']]) \<and>
   result_value
     (ann_store @
      [Records [\<lparr>s_name = ''Ann Lee'', s_group = IntV 1, s_email = ''a@e.edu'', s_missed = 4\<rparr>],
       StrList [''HW1'']])
     (Inr 1) =
   result_value
     (ann_store @
      [Records [\<lparr>s_name = ''Ann Lee'', s_group = IntV 1, s_email = ''a@e.edu'', s_missed = 4\<rparr>],
       StrList [''HW1'']])
     (Inr 3)"
proof -
  have one: "generate_missed_homework_report_st (\<lambda>s m e. ''0.0'') ann_gradebook
     ''First Name'' ''Last Name'' ''Group'' ''Email'' 4 [Frame ann_gradebook] =
     (Inr 1, ann_store)"
    by code_simp
  have two: "generate_missed_homework_report_st (\<lambda>s m e. ''0.0'') ann_gradebook
     ''First Name'' ''Last Name'' ''Group'' ''Email'' 4 ann_store =
     (Inr 3,
      ann_store @
      [Records [\<lparr>s_name = ''Ann Lee'', s_group = IntV 1, s_email = ''a@e.edu'', s_missed = 4\<rparr>],
       StrList [''HW1'']])"
    by code_simp
  from extractor_leaves_store_and_repeats [where frepr = "\<lambda>s m e. ''0.0''" and df = ann_gradebook
      and fc = "''First Name''" and lc = "''Last Name''" and gc = "''Group''" and ec = "''Email''"
      and idx = 4 and h = "[Frame ann_gradebook]"]
  have "result_value
     (ann_store @
      [Records [\<lparr>s_name = ''Ann Lee'', s_group = IntV 1, s_email = ''a@e.edu'', s_missed = 4\<rparr>],
       StrList [''HW1'']])
     (Inr 1) =
   result_value
     (ann_store @
      [Records [\<lparr>s_name = ''Ann Lee'', s_group = IntV 1, s_email = ''a@e.edu'', s_missed = 4\<rparr>],
       StrList [''HW1'']])
     (Inr 3)"
    unfolding one prod.case two by (rule conjunct2 [THEN conjunct2, THEN conjunct2, THEN conjunct2])
  with one two show ?thesis by (intro conjI)
qed

end
